theory Spec2Isabelle
  imports Complex_Main "HOL-Library.Log_Nat"
begin

section \<open>Python values used by app.py\<close>

text \<open>
  A Python \<open>str\<close> is modelled as a HOL \<open>string\<close>; a \<open>char\<close> stands for a code point
  below 256, so \<open>length\<close> is Python's \<open>len\<close> on such texts.
\<close>

text \<open>An exception object: its class name and \<open>str(e)\<close>.\<close>

datatype exc = Exc string string

fun exc_str :: "exc \<Rightarrow> string" where
  "exc_str (Exc cls msg) = msg"

subsection \<open>str.isspace, str.strip, str.split\<close>

text \<open>
  The code points below 256 that Python's \<open>str.strip()\<close> and \<open>str.split()\<close> treat
  as whitespace: TAB, LF, VT, FF, CR, FS, GS, RS, US, SPACE, NEL and NBSP.
\<close>

definition py_isspace :: "char \<Rightarrow> bool" where
  "py_isspace c =
     (let n = (of_char c :: nat)
      in (9 \<le> n \<and> n \<le> 13) \<or> (28 \<le> n \<and> n \<le> 32) \<or> n = 133 \<or> n = 160)"

definition py_strip :: "string \<Rightarrow> string" where
  "py_strip s = rev (dropWhile py_isspace (rev (dropWhile py_isspace s)))"

text \<open>
  \<open>text.split()\<close> with no separator: the maximal runs of non-whitespace, in order.
  \<open>cur\<close> is the current word, reversed.
\<close>

fun split_ws :: "string \<Rightarrow> string \<Rightarrow> string list" where
  "split_ws cur [] = (if cur = [] then [] else [rev cur])"
| "split_ws cur (c # cs) =
     (if py_isspace c
      then (if cur = [] then split_ws [] cs else rev cur # split_ws [] cs)
      else split_ws (c # cur) cs)"

definition py_split :: "string \<Rightarrow> string list" where
  "py_split s = split_ws [] s"

subsection \<open>str(int) and int(str)\<close>

definition digit_char :: "nat \<Rightarrow> char" where
  "digit_char d = char_of (48 + d)"

fun nat_digits :: "nat \<Rightarrow> string" where
  "nat_digits n = (if n < 10 then [digit_char n] else nat_digits (n div 10) @ [digit_char (n mod 10)])"

text \<open>\<open>str(n)\<close>, also what an f-string writes for an int and what Redis stores after INCR.\<close>

definition str_of_int :: "int \<Rightarrow> string" where
  "str_of_int i = (if i < 0 then CHR ''-'' # nat_digits (nat (- i)) else nat_digits (nat i))"

definition is_digit :: "char \<Rightarrow> bool" where
  "is_digit c = (let n = (of_char c :: nat) in 48 \<le> n \<and> n \<le> 57)"

definition digit_val :: "char \<Rightarrow> nat" where
  "digit_val c = of_char c - 48"

definition digits_val :: "string \<Rightarrow> nat" where
  "digits_val ds = foldl (\<lambda>acc c. acc * 10 + digit_val c) 0 ds"

text \<open>
  The digit part of an integer literal accepted by \<open>int(str)\<close>: digits, with single
  underscores allowed between two digits.
\<close>

fun int_body_ok :: "bool \<Rightarrow> string \<Rightarrow> bool" where
  "int_body_ok prev_digit [] = prev_digit"
| "int_body_ok prev_digit (c # cs) =
     (if is_digit c then int_body_ok True cs
      else if c = CHR ''_'' then prev_digit \<and> int_body_ok False cs
      else False)"

text \<open>
  The characters \<open>int(s)\<close> skips before and after the literal. CPython's parser skips
  the ASCII whitespace TAB, LF, VT, FF, CR and SPACE only; before parsing, a non-ASCII
  whitespace character (below 256: NEL and NBSP) is replaced by a SPACE. The separators
  FS, GS, RS and US, which \<open>str.strip()\<close> removes, are left in place and make \<open>int\<close>
  raise \<open>ValueError\<close>.
\<close>

definition int_isspace :: "char \<Rightarrow> bool" where
  "int_isspace c =
     (let n = (of_char c :: nat)
      in (9 \<le> n \<and> n \<le> 13) \<or> n = 32 \<or> n = 133 \<or> n = 160)"

text \<open>
  \<open>int(s)\<close> for a str: surrounding whitespace (as above) is skipped, one sign is
  allowed, and CPython refuses more than 4300 digits (its default limit for int/str
  conversion).
\<close>

definition py_int :: "string \<Rightarrow> exc + int" where
  "py_int s =
     (let t = rev (dropWhile int_isspace (rev (dropWhile int_isspace s)));
          neg = (t \<noteq> [] \<and> hd t = CHR ''-'');
          body = (if t \<noteq> [] \<and> (hd t = CHR ''-'' \<or> hd t = CHR ''+'') then tl t else t);
          ds = filter is_digit body
      in if \<not> int_body_ok False body then Inl (Exc ''ValueError'' (''invalid literal for int() with base 10: '' @ s))
         else if length ds > 4300 then Inl (Exc ''ValueError'' ''Exceeds the limit (4300 digits) for integer string conversion'')
         else Inr (if neg then - int (digits_val ds) else int (digits_val ds)))"

subsection \<open>str.lower\<close>

definition py_lower_char :: "char \<Rightarrow> char" where
  "py_lower_char c =
     (let n = (of_char c :: nat)
      in if (65 \<le> n \<and> n \<le> 90) \<or> (192 \<le> n \<and> n \<le> 222 \<and> n \<noteq> 215) then char_of (n + 32) else c)"

definition py_lower :: "string \<Rightarrow> string" where
  "py_lower s = map py_lower_char s"

subsection \<open>float\<close>

text \<open>
  A Python float is an IEEE 754 double. A finite double is modelled by the rational
  number it denotes; every operation computes the exact result and rounds it to the
  nearest double, ties to even (53-bit significand, least exponent \<open>-1074\<close>).
\<close>

datatype pyfloat = Finite rat | PosInf | NegInf | NaN

definition pow2 :: "int \<Rightarrow> rat" where
  "pow2 e = (if 0 \<le> e then 2 ^ nat e else 1 / 2 ^ nat (- e))"

text \<open>For \<open>0 < x\<close>, the integer \<open>e\<close> with \<open>2^e \<le> x < 2^(e+1)\<close>.\<close>

definition ilog2 :: "rat \<Rightarrow> int" where
  "ilog2 x = (if 1 \<le> x then bitlen \<lfloor>x\<rfloor> - 1 else - bitlen (\<lceil>1 / x\<rceil> - 1))"

definition round_half_even :: "rat \<Rightarrow> int" where
  "round_half_even x =
     (let f = \<lfloor>x\<rfloor>; d = x - of_int f
      in if d < 1 / 2 then f else if 1 / 2 < d then f + 1 else if even f then f else f + 1)"

text \<open>The double nearest to a rational; \<open>None\<close> when it is beyond the largest double.\<close>

definition nearest_double :: "rat \<Rightarrow> rat option" where
  "nearest_double x =
     (if x = 0 then Some 0
      else let a = \<bar>x\<bar>;
               q = max (ilog2 a - 52) (- 1074);
               r = of_int (round_half_even (a / pow2 q)) * pow2 q
           in if pow2 1024 \<le> r then None else Some (if x < 0 then - r else r))"

text \<open>\<open>a / b\<close> on two ints (true division).\<close>

definition int_truediv :: "int \<Rightarrow> int \<Rightarrow> exc + pyfloat" where
  "int_truediv a b =
     (if b = 0 then Inl (Exc ''ZeroDivisionError'' ''division by zero'')
      else case nearest_double (of_int a / of_int b) of
             None \<Rightarrow> Inl (Exc ''OverflowError'' ''integer division result too large for a float'')
           | Some r \<Rightarrow> Inr (Finite r))"

text \<open>\<open>x * y\<close> on two floats; the int operand \<open>100\<close> of the source is converted exactly.\<close>

fun float_mul :: "pyfloat \<Rightarrow> pyfloat \<Rightarrow> pyfloat" where
  "float_mul (Finite a) (Finite b) =
     (case nearest_double (a * b) of
        Some r \<Rightarrow> Finite r
      | None \<Rightarrow> if 0 < a * b then PosInf else NegInf)"
| "float_mul NaN _ = NaN"
| "float_mul _ NaN = NaN"
| "float_mul (Finite a) PosInf = (if a = 0 then NaN else if 0 < a then PosInf else NegInf)"
| "float_mul (Finite a) NegInf = (if a = 0 then NaN else if 0 < a then NegInf else PosInf)"
| "float_mul PosInf (Finite b) = (if b = 0 then NaN else if 0 < b then PosInf else NegInf)"
| "float_mul NegInf (Finite b) = (if b = 0 then NaN else if 0 < b then NegInf else PosInf)"
| "float_mul PosInf PosInf = PosInf"
| "float_mul PosInf NegInf = NegInf"
| "float_mul NegInf PosInf = NegInf"
| "float_mul NegInf NegInf = PosInf"

text \<open>
  \<open>round(x, ndigits)\<close> for a float and \<open>0 \<le> ndigits\<close>: CPython rounds the exact value of
  the double to \<open>ndigits\<close> decimals, ties to even, and returns the nearest double;
  infinities and NaN round to themselves.
\<close>

fun py_round :: "pyfloat \<Rightarrow> nat \<Rightarrow> exc + pyfloat" where
  "py_round (Finite x) ndigits =
     (case nearest_double (of_int (round_half_even (x * 10 ^ ndigits)) / 10 ^ ndigits) of
        None \<Rightarrow> Inl (Exc ''OverflowError'' ''rounded value too large to represent'')
      | Some r \<Rightarrow> Inr (Finite r))"
| "py_round x ndigits = Inr x"

subsection \<open>JSON values, dicts\<close>

text \<open>
  The values \<open>json.loads\<close> returns and \<open>json.dumps\<close>/\<open>jsonify\<close> accept. A dict is an
  association list in insertion order, with distinct keys.
\<close>

datatype json =
    JNull
  | JBool bool
  | JInt int
  | JFloat pyfloat
  | JStr string
  | JList "json list"
  | JDict "(string \<times> json) list"

text \<open>Truth value of an object, as \<open>if x:\<close> and \<open>not x\<close> test it.\<close>

fun truthy :: "json \<Rightarrow> bool" where
  "truthy JNull = False"
| "truthy (JBool b) = b"
| "truthy (JInt i) = (i \<noteq> 0)"
| "truthy (JFloat x) = (x \<noteq> Finite 0)"
| "truthy (JStr s) = (s \<noteq> [])"
| "truthy (JList xs) = (xs \<noteq> [])"
| "truthy (JDict kvs) = (kvs \<noteq> [])"

fun type_name :: "json \<Rightarrow> string" where
  "type_name JNull = ''NoneType''"
| "type_name (JBool b) = ''bool''"
| "type_name (JInt i) = ''int''"
| "type_name (JFloat x) = ''float''"
| "type_name (JStr s) = ''str''"
| "type_name (JList xs) = ''list''"
| "type_name (JDict kvs) = ''dict''"

text \<open>\<open>d.get(k, default)\<close>.\<close>

definition dict_get :: "(string \<times> json) list \<Rightarrow> string \<Rightarrow> json \<Rightarrow> json" where
  "dict_get kvs k dflt = (case map_of kvs k of None \<Rightarrow> dflt | Some v \<Rightarrow> v)"

text \<open>\<open>d[k] = v\<close>: an existing key keeps its place, a new key goes last.\<close>

fun dict_set :: "(string \<times> json) list \<Rightarrow> string \<Rightarrow> json \<Rightarrow> (string \<times> json) list" where
  "dict_set [] k v = [(k, v)]"
| "dict_set ((k', v') # kvs) k v = (if k' = k then (k, v) # kvs else (k', v') # dict_set kvs k v)"

text \<open>\<open>obj[k] = v\<close> with a str key, on any object.\<close>

fun setitem :: "json \<Rightarrow> string \<Rightarrow> json \<Rightarrow> exc + json" where
  "setitem (JDict kvs) k v = Inr (JDict (dict_set kvs k v))"
| "setitem (JList xs) k v = Inl (Exc ''TypeError'' ''list indices must be integers or slices, not str'')"
| "setitem obj k v =
     Inl (Exc ''TypeError'' ((CHR 0x27 # type_name obj) @ [CHR 0x27] @ '' object does not support item assignment''))"

section \<open>The Redis server\<close>

text \<open>
  The key-value store is an external service. Its state: the keys with their values and
  optional absolute expiry times (seconds), the server's clock, and whether commands are
  served (\<open>failure = Some e\<close>: every command of the client raises \<open>e\<close>, a connection
  error or a timeout). A key whose expiry time has come is gone.
\<close>

record redis_server =
  failure :: "exc option"
  keyspace :: "string \<Rightarrow> (string \<times> nat option) option"
  now :: nat

definition redis_entry :: "redis_server \<Rightarrow> string \<Rightarrow> (string \<times> nat option) option" where
  "redis_entry r k =
     (case keyspace r k of
        None \<Rightarrow> None
      | Some (v, None) \<Rightarrow> Some (v, None)
      | Some (v, Some t) \<Rightarrow> if now r < t then Some (v, Some t) else None)"

text \<open>GET (the client decodes responses to str).\<close>

definition redis_get :: "redis_server \<Rightarrow> string \<Rightarrow> exc + string option" where
  "redis_get r k =
     (case failure r of
        Some e \<Rightarrow> Inl e
      | None \<Rightarrow> Inr (map_option fst (redis_entry r k)))"

text \<open>SETEX key seconds value.\<close>

definition redis_setex :: "redis_server \<Rightarrow> string \<Rightarrow> nat \<Rightarrow> string \<Rightarrow> (exc + unit) \<times> redis_server" where
  "redis_setex r k seconds v =
     (case failure r of
        Some e \<Rightarrow> (Inl e, r)
      | None \<Rightarrow>
          if seconds = 0 then (Inl (Exc ''ResponseError'' ''invalid expire time in 'setex' command''), r)
          else (Inr (), r\<lparr>keyspace := (keyspace r)(k \<mapsto> (v, Some (now r + seconds)))\<rparr>))"

text \<open>The server reads a stored string as a signed 64-bit integer only in canonical form.\<close>

definition string2ll :: "string \<Rightarrow> int option" where
  "string2ll s =
     (if s = [] \<or> 21 \<le> length s then None
      else if s = ''0'' then Some 0
      else let neg = (hd s = CHR ''-'');
               ds = (if neg then tl s else s)
           in if ds = [] \<or> \<not> list_all is_digit ds \<or> hd ds = CHR ''0'' then None
              else let v = int (digits_val ds)
                   in if neg then (if v \<le> 2 ^ 63 then Some (- v) else None)
                      else (if v < 2 ^ 63 then Some v else None))"

text \<open>INCR, as executed by the server: an absent key counts as 0; the expiry is kept.\<close>

definition server_incr :: "redis_server \<Rightarrow> string \<Rightarrow> (exc + int) \<times> redis_server" where
  "server_incr r k =
     (case redis_entry r k of
        None \<Rightarrow> (Inr 1, r\<lparr>keyspace := (keyspace r)(k \<mapsto> (''1'', None))\<rparr>)
      | Some (v, t) \<Rightarrow>
          (case string2ll v of
             None \<Rightarrow> (Inl (Exc ''ResponseError'' ''value is not an integer or out of range''), r)
           | Some n \<Rightarrow>
               if n = 2 ^ 63 - 1
               then (Inl (Exc ''ResponseError'' ''increment or decrement would overflow''), r)
               else (Inr (n + 1), r\<lparr>keyspace := (keyspace r)(k \<mapsto> (str_of_int (n + 1), t))\<rparr>)))"

text \<open>EXPIRE key seconds, as executed by the server: a non-positive time deletes the key.\<close>

definition server_expire :: "redis_server \<Rightarrow> string \<Rightarrow> int \<Rightarrow> int \<times> redis_server" where
  "server_expire r k seconds =
     (case redis_entry r k of
        None \<Rightarrow> (0, r)
      | Some (v, t) \<Rightarrow>
          if seconds \<le> 0 then (1, r\<lparr>keyspace := (keyspace r)(k := None)\<rparr>)
          else (1, r\<lparr>keyspace := (keyspace r)(k \<mapsto> (v, Some (now r + nat seconds)))\<rparr>))"

text \<open>
  \<open>pipe = redis_client.pipeline(); pipe.incr(key); pipe.expire(key, window); pipe.execute()\<close>:
  both commands are sent as one MULTI/EXEC transaction. The server runs every queued
  command, also after one of them failed; the client then raises the first error.
\<close>

definition pipeline_incr_expire :: "redis_server \<Rightarrow> string \<Rightarrow> int \<Rightarrow> (exc + unit) \<times> redis_server" where
  "pipeline_incr_expire r k window =
     (case failure r of
        Some e \<Rightarrow> (Inl e, r)
      | None \<Rightarrow>
          (case server_incr r k of
             (res, r1) \<Rightarrow>
               (case server_expire r1 k window of
                  (_, r2) \<Rightarrow> (case res of Inl e \<Rightarrow> (Inl e, r2) | Inr _ \<Rightarrow> (Inr (), r2)))))"

section \<open>The process and its collaborators\<close>

text \<open>
  The mutable state a request sees: the flag \<open>REDIS_AVAILABLE\<close> set when the module is
  loaded, the Redis server behind \<open>redis_client\<close>, and \<open>ModelManager._model\<close>
  (\<open>None\<close> until the model is loaded).
\<close>

record 'm world =
  REDIS_AVAILABLE :: bool
  redis :: redis_server
  model_slot :: "'m option"

text \<open>
  Library code and measurements the source calls, as parameters:
  \<open>md5_hexdigest c\<close> is \<open>hashlib.md5(c.encode()).hexdigest()\<close>;
  \<open>load_pipeline\<close> is the outcome of \<open>pipeline("summarization", ...)\<close>, which takes
  \<open>load_seconds\<close>; \<open>run_model m text max_length min_length\<close> is
  \<open>m(text, max_length=..., min_length=..., do_sample=False, truncation=True)[0]['summary_text']\<close>,
  which takes \<open>model_seconds\<close>; \<open>inference_time\<close> is the measured
  \<open>round(time.time() - start_time, 2)\<close>; \<open>utcnow_isoformat\<close> is
  \<open>datetime.utcnow().isoformat()\<close>.
\<close>

record 'm env =
  md5_hexdigest :: "string \<Rightarrow> string"
  json_dumps :: "json \<Rightarrow> string"
  json_loads :: "string \<Rightarrow> exc + json"
  load_pipeline :: "exc + 'm"
  load_seconds :: nat
  run_model :: "'m \<Rightarrow> string \<Rightarrow> int \<Rightarrow> int \<Rightarrow> exc + string"
  model_seconds :: nat
  inference_time :: pyfloat
  utcnow_isoformat :: string

text \<open>Time passing on the server's clock.\<close>

definition advance :: "nat \<Rightarrow> 'm world \<Rightarrow> 'm world" where
  "advance dt w = w\<lparr>redis := (redis w)\<lparr>now := now (redis w) + dt\<rparr>\<rparr>"

section \<open>Caching utilities\<close>

text \<open>
  \<open>get_cache_key(text, length)\<close>. The parameter \<open>md5hex\<close> stands for
  \<open>hashlib.md5(content.encode()).hexdigest()\<close>, which is library code.
\<close>

definition get_cache_key :: "(string \<Rightarrow> string) \<Rightarrow> string \<Rightarrow> string \<Rightarrow> string" where
  "get_cache_key md5hex text len =
     (let content = take 1000 text @ '':'' @ len
      in ''summary:'' @ md5hex content)"

text \<open>
  \<open>get_cached_summary(text, length)\<close>: \<open>None\<close> is Python's \<open>None\<close>. Every exception of
  the \<open>try\<close> block (the GET, \<open>json.loads\<close>) is caught and logged.
\<close>

definition get_cached_summary :: "'m env \<Rightarrow> string \<Rightarrow> string \<Rightarrow> 'm world \<Rightarrow> json option" where
  "get_cached_summary env text len w =
     (if \<not> REDIS_AVAILABLE w then None
      else let key = get_cache_key (md5_hexdigest env) text len
           in case redis_get (redis w) key of
                Inl e \<Rightarrow> None
              | Inr None \<Rightarrow> None
              | Inr (Some cached) \<Rightarrow>
                  if cached \<noteq> []
                  then (case json_loads env cached of Inl e \<Rightarrow> None | Inr v \<Rightarrow> Some v)
                  else None)"

text \<open>
  \<open>cache_summary(text, length, summary_data)\<close>: returns nothing; an exception of the
  SETEX is caught and logged.
\<close>

definition cache_summary :: "'m env \<Rightarrow> string \<Rightarrow> string \<Rightarrow> json \<Rightarrow> 'm world \<Rightarrow> 'm world" where
  "cache_summary env text len summary_data w =
     (if \<not> REDIS_AVAILABLE w then w
      else let key = get_cache_key (md5_hexdigest env) text len
           in case redis_setex (redis w) key 86400 (json_dumps env summary_data) of
                (Inl e, r) \<Rightarrow> w\<lparr>redis := r\<rparr>
              | (Inr u, r) \<Rightarrow> w\<lparr>redis := r\<rparr>)"

section \<open>Input validation\<close>

definition validate_input :: "string \<Rightarrow> string \<Rightarrow> string list" where
  "validate_input text len =
     (if text = [] \<or> py_strip text = [] then [''Text cannot be empty''] else [])
     @ (if length text > 10000 then [''Text too long (max 10,000 characters)''] else [])
     @ (if length (py_split text) < 30 then [''Text too short (minimum 30 words)''] else [])
     @ (if len \<notin> set [''short'', ''medium'', ''long''] then [''Invalid length option''] else [])"

section \<open>Summarization logic\<close>

text \<open>\<open>ModelManager.get_model\<close>: loads the model on first use and returns \<open>self._model\<close>.\<close>

definition get_model :: "'m env \<Rightarrow> 'm world \<Rightarrow> (exc + 'm option) \<times> 'm world" where
  "get_model env w =
     (case model_slot w of
        None \<Rightarrow>
          (let w1 = advance (load_seconds env) w
           in case load_pipeline env of
                Inl e \<Rightarrow> (Inl e, w1)
              | Inr m \<Rightarrow> (let w2 = w1\<lparr>model_slot := Some m\<rparr> in (Inr (model_slot w2), w2)))
      | Some m \<Rightarrow> (Inr (model_slot w), w))"

text \<open>\<open>length_config.get(length, length_config['medium'])\<close> as \<open>(max_length, min_length)\<close>.\<close>

definition length_config :: "string \<Rightarrow> int \<times> int" where
  "length_config len =
     (if len = ''short'' then (50, 20)
      else if len = ''medium'' then (130, 30)
      else if len = ''long'' then (250, 50)
      else (130, 30))"

text \<open>\<open>round(len(summary_text) / len(text) * 100, 1)\<close>.\<close>

definition compression_ratio :: "string \<Rightarrow> string \<Rightarrow> exc + pyfloat" where
  "compression_ratio summary_text text =
     (case int_truediv (int (length summary_text)) (int (length text)) of
        Inl e \<Rightarrow> Inl e
      | Inr q \<Rightarrow> py_round (float_mul q (Finite 100)) 1)"

text \<open>
  \<open>generate_summary(text, length)\<close>: \<open>Inl e\<close> is the exception that the \<open>except\<close> clause
  logs and raises again.
\<close>

definition generate_summary :: "'m env \<Rightarrow> string \<Rightarrow> string \<Rightarrow> 'm world \<Rightarrow> (exc + json) \<times> 'm world" where
  "generate_summary env text len w =
     (case (case get_cached_summary env text len w of
              None \<Rightarrow> None
            | Some c \<Rightarrow> if truthy c then Some c else None) of
        Some cached \<Rightarrow> (setitem cached ''cached'' (JBool True), w)
      | None \<Rightarrow>
          (case length_config len of
             (max_length, min_length) \<Rightarrow>
               (case get_model env w of
                  (Inl e, w1) \<Rightarrow> (Inl e, w1)
                | (Inr None, w1) \<Rightarrow>
                    (Inl (Exc ''TypeError'' (CHR 0x27 # ''NoneType'' @ CHR 0x27 # '' object is not callable'')), w1)
                | (Inr (Some model), w1) \<Rightarrow>
                    (let w2 = advance (model_seconds env) w1
                     in case run_model env model text max_length min_length of
                          Inl e \<Rightarrow> (Inl e, w2)
                        | Inr summary_text \<Rightarrow>
                            (case compression_ratio summary_text text of
                               Inl e \<Rightarrow> (Inl e, w2)
                             | Inr ratio \<Rightarrow>
                                 (let response = JDict
                                        [(''summary'', JStr summary_text),
                                         (''original_length'', JInt (int (length (py_split text)))),
                                         (''summary_length'', JInt (int (length (py_split summary_text)))),
                                         (''compression_ratio'', JFloat ratio),
                                         (''inference_time'', JFloat (inference_time env)),
                                         (''cached'', JBool False),
                                         (''timestamp'', JStr (utcnow_isoformat env))]
                                  in (Inr response, cache_summary env text len response w2)))))))"

section \<open>Routes\<close>

text \<open>
  What a view sees of Flask's request: the client address and the outcome of
  \<open>request.get_json()\<close>. A response is the JSON body with the status code.
\<close>

record request =
  remote_addr :: "string option"
  get_json :: "exc + json"

record response =
  body :: json
  status :: nat

definition attribute_error :: "json \<Rightarrow> string \<Rightarrow> exc" where
  "attribute_error obj attr =
     Exc ''AttributeError''
       (CHR 0x27 # type_name obj @ CHR 0x27 # '' object has no attribute '' @ CHR 0x27 # attr @ [CHR 0x27])"

text \<open>The body and status of the \<open>except Exception\<close> clause of \<open>summarize\<close>.\<close>

definition internal_error :: "exc \<Rightarrow> response" where
  "internal_error e =
     \<lparr>body = JDict [(''success'', JBool False),
                    (''error'', JStr ''Internal server error''),
                    (''message'', JStr (exc_str e))],
      status = 500\<rparr>"

text \<open>The view \<open>summarize\<close>, before the rate-limit decorator is applied.\<close>

definition summarize :: "'m env \<Rightarrow> request \<Rightarrow> 'm world \<Rightarrow> response \<times> 'm world" where
  "summarize env req w =
     (case get_json req of
        Inl e \<Rightarrow> (internal_error e, w)
      | Inr data \<Rightarrow>
          if \<not> truthy data
          then (\<lparr>body = JDict [(''error'', JStr ''No JSON data provided'')], status = 400\<rparr>, w)
          else (case data of
                  JDict kvs \<Rightarrow>
                    (case dict_get kvs ''text'' (JStr []) of
                       JStr raw_text \<Rightarrow>
                         (let text = py_strip raw_text
                          in case dict_get kvs ''length'' (JStr ''medium'') of
                               JStr raw_length \<Rightarrow>
                                 (let len = py_lower raw_length;
                                      errors = validate_input text len
                                  in if errors \<noteq> []
                                     then (\<lparr>body = JDict [(''error'', JStr (hd errors))], status = 400\<rparr>, w)
                                     else (case generate_summary env text len w of
                                             (Inl e, w') \<Rightarrow> (internal_error e, w')
                                           | (Inr result, w') \<Rightarrow>
                                               (\<lparr>body = JDict [(''success'', JBool True), (''data'', result)],
                                                 status = 200\<rparr>, w')))
                             | v \<Rightarrow> (internal_error (attribute_error v ''lower''), w))
                     | v \<Rightarrow> (internal_error (attribute_error v ''strip''), w))
                | v \<Rightarrow> (internal_error (attribute_error v ''get''), w)))"

text \<open>
  The decorator \<open>rate_limit(max_requests, window)\<close> applied to a view \<open>f\<close>. The key is
  \<open>f"rate_limit:{ip}"\<close>; an exception of the \<open>try\<close> block (the GET, \<open>int(current)\<close>,
  the pipeline) is logged and the view is called.
\<close>

definition rate_limit ::
  "int \<Rightarrow> int \<Rightarrow> (request \<Rightarrow> 'm world \<Rightarrow> response \<times> 'm world) \<Rightarrow> request \<Rightarrow> 'm world \<Rightarrow> response \<times> 'm world" where
  "rate_limit max_requests window f req w =
     (if \<not> REDIS_AVAILABLE w then f req w
      else let ip = (case remote_addr req of None \<Rightarrow> ''None'' | Some a \<Rightarrow> a);
               key = ''rate_limit:'' @ ip
           in case redis_get (redis w) key of
                Inl e \<Rightarrow> f req w
              | Inr current \<Rightarrow>
                  (case (case current of
                           None \<Rightarrow> Inr False
                         | Some c \<Rightarrow>
                             if c = [] then Inr False
                             else (case py_int c of Inl e \<Rightarrow> Inl e | Inr n \<Rightarrow> Inr (max_requests \<le> n))) of
                     Inl e \<Rightarrow> f req w
                   | Inr True \<Rightarrow>
                       (\<lparr>body = JDict [(''error'', JStr ''Rate limit exceeded''),
                                       (''message'', JStr (''Max '' @ str_of_int max_requests
                                            @ '' requests per '' @ str_of_int window @ ''s''))],
                         status = 429\<rparr>, w)
                   | Inr False \<Rightarrow>
                       (case pipeline_incr_expire (redis w) key window of
                          (res, r) \<Rightarrow> f req (w\<lparr>redis := r\<rparr>))))"

text \<open>\<open>POST /api/summarize\<close>: \<open>@rate_limit(max_requests=10, window=60)\<close> on \<open>summarize\<close>.\<close>

definition api_summarize :: "'m env \<Rightarrow> request \<Rightarrow> 'm world \<Rightarrow> response \<times> 'm world" where
  "api_summarize env = rate_limit 10 60 (summarize env)"

text \<open>The 429 response of the decorator as applied to \<open>summarize\<close>.\<close>

definition too_many_requests :: response where
  "too_many_requests =
     \<lparr>body = JDict [(''error'', JStr ''Rate limit exceeded''),
                    (''message'', JStr ''Max 10 requests per 60s'')],
      status = 429\<rparr>"

text \<open>\<open>GET /api/health\<close>.\<close>

definition health_check :: "'m env \<Rightarrow> 'm world \<Rightarrow> response \<times> 'm world" where
  "health_check env w =
     (case get_model env w of
        (Inl e, w') \<Rightarrow>
          (\<lparr>body = JDict [(''status'', JStr ''unhealthy''), (''error'', JStr (exc_str e))],
            status = 503\<rparr>, w')
      | (Inr model, w') \<Rightarrow>
          (let redis_status = (if REDIS_AVAILABLE w' then ''connected'' else ''disconnected'')
           in (\<lparr>body = JDict [(''status'', JStr ''healthy''),
                              (''model_loaded'', JBool (model \<noteq> None)),
                              (''redis'', JStr redis_status),
                              (''timestamp'', JStr (utcnow_isoformat env))],
                status = 200\<rparr>, w')))"

section \<open>Example inputs\<close>

text \<open>Concrete collaborators, a concrete state and concrete requests, used to instantiate the theorems.\<close>

definition example_env :: "unit env" where
  "example_env =
     \<lparr>md5_hexdigest = id,
      json_dumps = (\<lambda>v. ''{}''),
      json_loads = (\<lambda>s. Inl (Exc ''JSONDecodeError'' ''Expecting value'')),
      load_pipeline = Inr (),
      load_seconds = 3,
      run_model = (\<lambda>m text max_length min_length. Inr (take 150 text)),
      model_seconds = 2,
      inference_time = Finite 2,
      utcnow_isoformat = ''2024-01-01T00:00:00''\<rparr>"

definition example_world :: "unit world" where
  "example_world =
     \<lparr>REDIS_AVAILABLE = True,
      redis = \<lparr>failure = None, keyspace = Map.empty, now = 1000\<rparr>,
      model_slot = None\<rparr>"

definition example_request :: "string \<Rightarrow> string \<Rightarrow> request" where
  "example_request text len =
     \<lparr>remote_addr = Some ''10.0.0.7'',
      get_json = Inr (JDict [(''text'', JStr text), (''length'', JStr len)])\<rparr>"

definition example_text :: string where
  "example_text = concat (replicate 30 ''word '')"

definition failing_env :: "unit env" where
  "failing_env = example_env\<lparr>run_model := (\<lambda>m text max_length min_length. Inl (Exc ''RuntimeError'' ''CUDA out of memory''))\<rparr>"

definition unreachable_world :: "unit world" where
  "unreachable_world =
     \<lparr>REDIS_AVAILABLE = True,
      redis = \<lparr>failure = Some (Exc ''ConnectionError'' ''Error 111 connecting to localhost:6379. Connection refused.''),
               keyspace = Map.empty, now = 1000\<rparr>,
      model_slot = Some ()\<rparr>"

definition counter_world :: "string \<Rightarrow> nat \<Rightarrow> unit world" where
  "counter_world v expiry =
     example_world\<lparr>redis := (redis example_world)
        \<lparr>keyspace := [''rate_limit:10.0.0.7'' \<mapsto> (v, Some expiry)]\<rparr>\<rparr>"

definition ok_view :: "request \<Rightarrow> unit world \<Rightarrow> response \<times> unit world" where
  "ok_view req w = (\<lparr>body = JDict [(''success'', JBool True)], status = 200\<rparr>, w)"

text \<open>A summary result as \<open>generate_summary\<close> builds it, and a JSON codec that knows this one document.\<close>

definition example_result :: "(string \<times> json) list" where
  "example_result =
     [(''summary'', JStr ''word word''),
      (''original_length'', JInt 30),
      (''summary_length'', JInt 2),
      (''compression_ratio'', JFloat (Finite 6)),
      (''inference_time'', JFloat (Finite 2)),
      (''cached'', JBool False),
      (''timestamp'', JStr ''2024-01-01T00:00:00'')]"

definition one_document_env :: "unit env" where
  "one_document_env =
     example_env\<lparr>json_dumps := (\<lambda>v. ''<example_result>''),
                 json_loads := (\<lambda>s. if s = ''<example_result>'' then Inr (JDict example_result)
                                     else Inl (Exc ''JSONDecodeError'' ''Expecting value''))\<rparr>"

section \<open>Properties\<close>

subsection \<open>Float arithmetic stays finite\<close>

lemma pow2_pos: "0 < pow2 e"
  by (simp add: pow2_def)

lemma pow2_quantum_le:
  assumes "0 < x"
  shows "pow2 (max (ilog2 x - 52) (- 1074)) \<le> max x 1"
proof (cases "1 \<le> x")
  case True
  then have fl: "0 < \<lfloor>x\<rfloor>" by simp
  define e where "e = bitlen \<lfloor>x\<rfloor> - 1"
  have "\<lfloor>x\<rfloor> < 2 ^ nat (bitlen \<lfloor>x\<rfloor>)"
    using bitlen_bounds [OF fl] by simp
  with fl have "\<not> bitlen \<lfloor>x\<rfloor> \<le> 0"
    by (cases "bitlen \<lfloor>x\<rfloor> \<le> 0") auto
  then have e0: "0 \<le> e" by (simp add: e_def)
  have "(2::int) ^ nat e \<le> \<lfloor>x\<rfloor>"
    using bitlen_bounds [OF fl] by (simp add: e_def)
  then have "(of_int ((2::int) ^ nat e) :: rat) \<le> of_int \<lfloor>x\<rfloor>"
    by (simp only: of_int_le_iff)
  then have pe: "(2::rat) ^ nat e \<le> x"
    by (simp add: le_floor_iff)
  have il: "ilog2 x = e" using True by (simp add: ilog2_def e_def)
  have q: "max (ilog2 x - 52) (- 1074) = e - 52" using e0 il by simp
  show ?thesis
  proof (cases "0 \<le> e - 52")
    case True
    have "(2::rat) ^ nat (e - 52) \<le> 2 ^ nat e"
      by (rule power_increasing) (use True in auto)
    with pe have "(2::rat) ^ nat (e - 52) \<le> x" by linarith
    moreover have "pow2 (e - 52) = 2 ^ nat (e - 52)" using True by (simp add: pow2_def)
    ultimately show ?thesis unfolding q by (simp add: le_max_iff_disj)
  next
    case False
    have "1 / (2::rat) ^ nat (- (e - 52)) \<le> 1" by simp
    moreover have "pow2 (e - 52) = 1 / 2 ^ nat (- (e - 52))" using False by (simp add: pow2_def)
    ultimately have "pow2 (e - 52) \<le> 1" by simp
    then show ?thesis unfolding q by (simp add: le_max_iff_disj)
  qed
next
  case False
  have "0 \<le> bitlen (\<lceil>1 / x\<rceil> - 1)" by (simp add: bitlen_def)
  then have "ilog2 x \<le> 0" using False by (simp add: ilog2_def)
  then have "max (ilog2 x - 52) (- 1074) < 0" by simp
  then have "pow2 (max (ilog2 x - 52) (- 1074)) \<le> 1"
    by (simp add: pow2_def)
  then show ?thesis by simp
qed

lemma round_half_even_le: "of_int (round_half_even y) \<le> y + 1"
proof -
  have fl: "of_int \<lfloor>y\<rfloor> \<le> y" by simp
  have "round_half_even y = \<lfloor>y\<rfloor> \<or> round_half_even y = \<lfloor>y\<rfloor> + 1"
    by (simp add: round_half_even_def Let_def)
  then show ?thesis
  proof
    assume "round_half_even y = \<lfloor>y\<rfloor>"
    with fl show ?thesis by linarith
  next
    assume "round_half_even y = \<lfloor>y\<rfloor> + 1"
    with fl show ?thesis by simp
  qed
qed

lemma round_half_even_nonneg: "0 \<le> y \<Longrightarrow> 0 \<le> round_half_even y"
proof -
  assume "0 \<le> y"
  then have "0 \<le> \<lfloor>y\<rfloor>" by simp
  moreover have "round_half_even y = \<lfloor>y\<rfloor> \<or> round_half_even y = \<lfloor>y\<rfloor> + 1"
    by (simp add: round_half_even_def Let_def)
  ultimately show ?thesis by auto
qed

lemma nearest_double_bound:
  assumes "0 \<le> x" "x \<le> 2 ^ 100"
  shows "\<exists>r. nearest_double x = Some r \<and> 0 \<le> r \<and> r \<le> 2 * x + 1"
proof (cases "x = 0")
  case True
  then show ?thesis by (simp add: nearest_double_def)
next
  case False
  with assms have xp: "0 < x" by simp
  define q where "q = max (ilog2 x - 52) (- 1074)"
  define r where "r = of_int (round_half_even (x / pow2 q)) * pow2 q"
  have pq: "0 < pow2 q" by (rule pow2_pos)
  have "r \<le> (x / pow2 q + 1) * pow2 q"
    unfolding r_def using round_half_even_le [of "x / pow2 q"] pq
    by (simp add: mult_right_mono)
  also have "\<dots> = x + pow2 q" using pq by (simp add: algebra_simps)
  also have "\<dots> \<le> x + max x 1" using pow2_quantum_le [OF xp] by (simp add: q_def)
  also have "\<dots> \<le> 2 * x + 1" using xp by simp
  finally have ub: "r \<le> 2 * x + 1" .
  have "0 \<le> x / pow2 q" using xp pq by simp
  then have "0 \<le> round_half_even (x / pow2 q)" by (rule round_half_even_nonneg)
  then have lb: "0 \<le> r" unfolding r_def using pq by simp
  have "(2::rat) ^ 102 \<le> 2 ^ 1024" by (rule power_increasing) simp_all
  moreover have "2 * x + 1 < 2 ^ 102" using assms(2) by simp
  ultimately have "r < pow2 1024" using ub by (simp add: pow2_def)
  then have "nearest_double x = Some r"
    using xp by (simp add: nearest_double_def Let_def q_def r_def)
  with lb ub show ?thesis by simp
qed

lemma compression_ratio_returns:
  assumes "length summary_text < 2 ^ 63" "txt \<noteq> []"
  shows "\<exists>c. compression_ratio summary_text txt = Inr (Finite c)"
proof -
  define a where "a = (of_int (int (length summary_text)) :: rat)"
  define b where "b = (of_int (int (length txt)) :: rat)"
  have b1: "1 \<le> b" using assms(2) by (cases "txt") (simp_all add: b_def)
  have a0: "0 \<le> a" by (simp add: a_def)
  have "(of_nat (length summary_text) :: rat) \<le> of_nat (2 ^ 63)"
    using assms(1) by (simp only: of_nat_le_iff)
  then have a63: "a \<le> 2 ^ 63" by (simp add: a_def)
  have "a / b \<le> a / 1" using a0 b1 by (intro frac_le) simp_all
  with a63 a0 b1 have ab: "0 \<le> a / b" "a / b \<le> 2 ^ 63" by simp_all
  then have "a / b \<le> 2 ^ 100" by simp
  from nearest_double_bound [OF ab(1) this]
  obtain r1 where r1: "nearest_double (a / b) = Some r1" "0 \<le> r1" "r1 \<le> 2 * (a / b) + 1"
    by blast
  have bn: "int (length txt) \<noteq> 0" using assms(2) by simp
  have q: "int_truediv (int (length summary_text)) (int (length txt)) = Inr (Finite r1)"
    using r1(1) bn by (simp add: int_truediv_def a_def b_def)
  have r1b: "r1 \<le> 2 ^ 65" using r1(3) ab(2) by simp
  have "0 \<le> r1 * 100" "r1 * 100 \<le> 2 ^ 100" using r1(2) r1b by simp_all
  from nearest_double_bound [OF this]
  obtain r2 where r2: "nearest_double (r1 * 100) = Some r2" "0 \<le> r2" "r2 \<le> 2 * (r1 * 100) + 1"
    by blast
  have m: "float_mul (Finite r1) (Finite 100) = Finite r2"
    using r2(1) by simp
  have r2b: "r2 \<le> 2 ^ 74" using r2(3) r1b by simp
  define y where "y = (of_int (round_half_even (r2 * 10 ^ 1)) :: rat) / 10 ^ 1"
  have "0 \<le> r2 * 10 ^ 1" using r2(2) by simp
  then have y0: "0 \<le> y" unfolding y_def using round_half_even_nonneg by simp
  have "y \<le> (r2 * 10 ^ 1 + 1) / 10 ^ 1"
    unfolding y_def using round_half_even_le [of "r2 * 10 ^ 1"] by (simp add: divide_right_mono)
  then have "y \<le> 2 ^ 100" using r2b by simp
  from nearest_double_bound [OF y0 this]
  obtain r3 where r3: "nearest_double y = Some r3" by blast
  then have "py_round (Finite r2) 1 = Inr (Finite r3)"
    by (simp add: y_def)
  with q m show ?thesis by (simp add: compression_ratio_def)
qed

subsection \<open>Float arithmetic: accuracy\<close>

text \<open>
  Rounding to the nearest double changes a value in the normal range by at most the
  fraction \<open>1 / 2 ^ 53\<close> of it.
\<close>

lemma pow2_pred: "pow2 (e - 1) = pow2 e / 2"
proof (cases "1 \<le> e")
  case True
  then have "nat e = Suc (nat (e - 1))" by simp
  then have "(2::rat) ^ nat e = 2 * 2 ^ nat (e - 1)" by (simp only: power_Suc)
  then show ?thesis using True by (simp add: pow2_def)
next
  case False
  then have "nat (- (e - 1)) = Suc (nat (- e))" by simp
  then have "(2::rat) ^ nat (- (e - 1)) = 2 * 2 ^ nat (- e)" by (simp only: power_Suc)
  then show ?thesis using False by (auto simp: pow2_def)
qed

lemma pow2_diff: "pow2 (e - int k) = pow2 e / 2 ^ k"
proof (induction k arbitrary: e)
  case 0
  show ?case by simp
next
  case (Suc k)
  have "pow2 (e - int (Suc k)) = pow2 ((e - 1) - int k)" by (simp add: algebra_simps)
  also have "\<dots> = pow2 (e - 1) / 2 ^ k" by (rule Suc.IH)
  also have "\<dots> = pow2 e / 2 ^ Suc k" by (simp add: pow2_pred)
  finally show ?case .
qed

lemma pow2_diff_52: "pow2 (e - 52) = pow2 e / 2 ^ 52"
  using pow2_diff [of e 52] by simp

lemma pow2_ilog2_le:
  assumes "0 < x"
  shows "pow2 (ilog2 x) \<le> x"
proof (cases "1 \<le> x")
  case True
  then have fl: "0 < \<lfloor>x\<rfloor>" by simp
  define e where "e = bitlen \<lfloor>x\<rfloor> - 1"
  have "\<lfloor>x\<rfloor> < 2 ^ nat (bitlen \<lfloor>x\<rfloor>)"
    using bitlen_bounds [OF fl] by simp
  with fl have "\<not> bitlen \<lfloor>x\<rfloor> \<le> 0"
    by (cases "bitlen \<lfloor>x\<rfloor> \<le> 0") auto
  then have e0: "0 \<le> e" by (simp add: e_def)
  have "(2::int) ^ nat e \<le> \<lfloor>x\<rfloor>"
    using bitlen_bounds [OF fl] by (simp add: e_def)
  then have "(of_int ((2::int) ^ nat e) :: rat) \<le> of_int \<lfloor>x\<rfloor>"
    by (simp only: of_int_le_iff)
  then have pe: "(2::rat) ^ nat e \<le> x"
    by (simp add: le_floor_iff)
  have il: "ilog2 x = e" using True by (simp add: ilog2_def e_def)
  show ?thesis unfolding il using pe e0 by (simp add: pow2_def)
next
  case False
  then have x1: "x < 1" by simp
  define n where "n = \<lceil>1 / x\<rceil> - 1"
  have "1 < 1 / x" using assms x1 by simp
  then have "1 < \<lceil>1 / x\<rceil>" by (simp add: less_ceiling_iff)
  then have n0: "0 < n" by (simp add: n_def)
  have "n < 2 ^ nat (bitlen n)" using bitlen_bounds [OF n0] by simp
  then have "n + 1 \<le> 2 ^ nat (bitlen n)" by simp
  then have "(of_int (n + 1) :: rat) \<le> of_int (2 ^ nat (bitlen n))"
    by (simp only: of_int_le_iff)
  then have "(of_int \<lceil>1 / x\<rceil> :: rat) \<le> 2 ^ nat (bitlen n)"
    by (simp add: n_def)
  moreover have "1 / x \<le> of_int \<lceil>1 / x\<rceil>" by simp
  ultimately have "1 / x \<le> 2 ^ nat (bitlen n)" by linarith
  then have "1 / 2 ^ nat (bitlen n) \<le> x"
    using assms by (simp add: field_simps)
  moreover have "ilog2 x = - bitlen n" using False by (simp add: ilog2_def n_def)
  moreover have "0 \<le> bitlen n" by (rule bitlen_nonneg)
  ultimately show ?thesis by (auto simp: pow2_def)
qed

lemma ilog2_lower:
  assumes "1 / 2 ^ 1022 \<le> x"
  shows "- 1022 \<le> ilog2 x"
proof (cases "1 \<le> x")
  case True
  have "0 \<le> bitlen \<lfloor>x\<rfloor>" by (rule bitlen_nonneg)
  then show ?thesis using True by (simp add: ilog2_def)
next
  case False
  have xp: "0 < x" using assms by (rule less_le_trans [rotated]) simp
  define n where "n = \<lceil>1 / x\<rceil> - 1"
  have "1 / x \<le> 2 ^ 1022" using assms xp by (simp add: field_simps)
  then have "\<lceil>1 / x\<rceil> \<le> 2 ^ 1022" by (simp add: ceiling_le_iff)
  then have "n < 2 ^ nat 1022" by (simp add: n_def)
  then have "bitlen n \<le> 1022" by (simp add: bitlen_le_iff_power)
  then show ?thesis using False by (simp add: ilog2_def n_def)
qed

lemma round_half_even_abs: "\<bar>of_int (round_half_even y) - y\<bar> \<le> 1 / 2"
proof -
  define f where "f = \<lfloor>y\<rfloor>"
  define d where "d = y - of_int f"
  have d0: "0 \<le> d" "d < 1" unfolding d_def f_def by linarith+
  have y: "y = of_int f + d" by (simp add: d_def)
  consider "d < 1 / 2" | "1 / 2 < d" | "d = 1 / 2" by linarith
  then show ?thesis
  proof cases
    case 1
    then have "round_half_even y = f" by (simp add: round_half_even_def f_def d_def Let_def)
    then show ?thesis using 1 d0 y by simp
  next
    case 2
    then have "round_half_even y = f + 1" by (simp add: round_half_even_def f_def d_def Let_def)
    then show ?thesis using 2 d0 y by simp
  next
    case 3
    have r: "round_half_even y = f \<or> round_half_even y = f + 1"
      by (simp add: round_half_even_def f_def Let_def)
    have yy: "y - of_int f = 1 / 2" using y 3 by linarith
    from r show ?thesis
    proof
      assume a: "round_half_even y = f"
      show ?thesis unfolding a using yy by linarith
    next
      assume a: "round_half_even y = f + 1"
      show ?thesis unfolding a using yy by simp
    qed
  qed
qed

lemma nearest_double_error:
  assumes "x = 0 \<or> 1 / 2 ^ 1022 \<le> x" "x \<le> 2 ^ 100"
  shows "\<exists>r. nearest_double x = Some r \<and> \<bar>r - x\<bar> \<le> x / 2 ^ 53"
proof (cases "x = 0")
  case True
  then show ?thesis by (simp add: nearest_double_def)
next
  case False
  with assms have lo: "1 / 2 ^ 1022 \<le> x" by simp
  have xp: "0 < x" using lo by (rule less_le_trans [rotated]) simp
  define q where "q = max (ilog2 x - 52) (- 1074)"
  define r where "r = of_int (round_half_even (x / pow2 q)) * pow2 q"
  have pq: "0 < pow2 q" by (rule pow2_pos)
  have qe: "q = ilog2 x - 52" using ilog2_lower [OF lo] by (simp add: q_def)
  have "pow2 q = pow2 (ilog2 x) / 2 ^ 52" unfolding qe by (rule pow2_diff_52)
  also have "\<dots> \<le> x / 2 ^ 52" using pow2_ilog2_le [OF xp] by (simp add: divide_right_mono)
  finally have pqx: "pow2 q \<le> x / 2 ^ 52" .
  have "r - x = (of_int (round_half_even (x / pow2 q)) - x / pow2 q) * pow2 q"
    using pq by (simp add: r_def algebra_simps)
  then have "\<bar>r - x\<bar> = \<bar>of_int (round_half_even (x / pow2 q)) - x / pow2 q\<bar> * pow2 q"
    using pq by (simp add: abs_mult)
  also have "\<dots> \<le> (1 / 2) * pow2 q"
    using round_half_even_abs [of "x / pow2 q"] pq by (intro mult_right_mono) simp_all
  also have "\<dots> \<le> (1 / 2) * (x / 2 ^ 52)" using pqx by simp
  also have "\<dots> = x / 2 ^ 53" by simp
  finally have err: "\<bar>r - x\<bar> \<le> x / 2 ^ 53" .
  have "x / 2 ^ 53 \<le> x" using xp by (simp add: field_simps)
  with err have "r \<le> 2 * x" by linarith
  also have "\<dots> \<le> 2 ^ 101" using assms(2) by simp
  also have "\<dots> < (2::rat) ^ 1024" by (rule power_strict_increasing) simp_all
  finally have "r < pow2 1024" by (simp add: pow2_def)
  then have "nearest_double x = Some r"
    using xp by (simp add: nearest_double_def Let_def q_def r_def)
  with err show ?thesis by simp
qed

lemma tiny_le: "(1::rat) / 2 ^ 1022 \<le> 1 / 2 ^ 64"
proof -
  have "(2::rat) ^ 64 \<le> 2 ^ 1022" by (rule power_increasing) simp_all
  then show ?thesis by (intro frac_le) simp_all
qed

lemma div_pow2_le: "0 \<le> z \<Longrightarrow> z / 2 ^ n \<le> (z::rat)"
proof -
  assume z: "0 \<le> z"
  have "(1::rat) \<le> 2 ^ n" by simp
  with z have "z / 2 ^ n \<le> z / 1" by (intro frac_le) simp_all
  then show ?thesis by simp
qed

lemma compression_ratio_value:
  assumes "txt \<noteq> []" "length txt < 2 ^ 63" "length summary_text < 2 ^ 63"
  defines "R \<equiv> 100 * (of_nat (length summary_text) :: rat) / of_nat (length txt)"
  shows "\<exists>q p c. nearest_double (of_nat (length summary_text) / of_nat (length txt)) = Some q
      \<and> nearest_double (q * 100) = Some p
      \<and> nearest_double (of_int (round_half_even (p * 10)) / 10) = Some c
      \<and> compression_ratio summary_text txt = Inr (Finite c)
      \<and> \<bar>of_int (round_half_even (p * 10)) / 10 - R\<bar> \<le> 1 / 20 + R / 2 ^ 51
      \<and> \<bar>c - R\<bar> \<le> 1 / 20 + (R + 1) / 2 ^ 50"
proof -
  define a where "a = (of_nat (length summary_text) :: rat)"
  define b where "b = (of_nat (length txt) :: rat)"
  define x where "x = a / b"
  have b1: "1 \<le> b" using assms(1) by (cases "txt") (simp_all add: b_def)
  have a0: "0 \<le> a" by (simp add: a_def)
  have "(of_nat (length summary_text) :: rat) \<le> of_nat (2 ^ 63)"
    using assms(3) by (simp only: of_nat_le_iff)
  then have a63: "a \<le> 2 ^ 63" by (simp add: a_def)
  have "(of_nat (length txt) :: rat) \<le> of_nat (2 ^ 63)"
    using assms(2) by (simp only: of_nat_le_iff)
  then have b63: "b \<le> 2 ^ 63" by (simp add: b_def)
  have R: "R = 100 * x" by (simp add: R_def x_def a_def b_def)
  have "a / b \<le> a / 1" using a0 b1 by (intro frac_le) simp_all
  with a63 a0 b1 have x0: "0 \<le> x" and x63: "x \<le> 2 ^ 63" by (simp_all add: x_def)
  have xlo: "x = 0 \<or> 1 / 2 ^ 63 \<le> x"
  proof (cases "length summary_text = 0")
    case True
    then show ?thesis by (simp add: x_def a_def)
  next
    case False
    then have "1 \<le> length summary_text" by (cases summary_text) simp_all
    then have "(of_nat 1 :: rat) \<le> of_nat (length summary_text)" by (simp only: of_nat_le_iff)
    then have a1: "1 \<le> a" by (simp add: a_def)
    have "1 / 2 ^ 63 \<le> a / b" using a1 b1 b63 by (intro frac_le) simp_all
    then show ?thesis by (simp add: x_def)
  qed
  have t63: "(1::rat) / 2 ^ 1022 \<le> 1 / 2 ^ 64"
    by (rule tiny_le)
  have "(1::rat) / 2 ^ 64 \<le> 1 / 2 ^ 63" by simp
  with xlo t63 have xlo': "x = 0 \<or> 1 / 2 ^ 1022 \<le> x" by linarith
  have "x \<le> 2 ^ 100" using x63 by simp
  from nearest_double_error [OF xlo' this]
  obtain q where q: "nearest_double x = Some q" "\<bar>q - x\<bar> \<le> x / 2 ^ 53" by blast
  have xh: "x / 2 ^ 53 \<le> x / 2" using x0 by simp
  have q0: "0 \<le> q" using q(2) xh x0 by linarith
  have qlo: "q * 100 = 0 \<or> 1 / 2 ^ 1022 \<le> q * 100"
  proof (cases "x = 0")
    case True
    with q(2) show ?thesis by simp
  next
    case False
    with xlo have "1 / 2 ^ 63 \<le> x" by simp
    moreover have "x / 2 \<le> q" using q(2) xh by linarith
    ultimately have "1 / 2 ^ 64 \<le> q" by simp
    with t63 have "1 / 2 ^ 1022 \<le> q" by linarith
    moreover have "q \<le> q * 100" using q0 by simp
    ultimately show ?thesis by linarith
  qed
  have qub: "q \<le> x + x / 2 ^ 53" using q(2) by linarith
  have "q * 100 \<le> 2 ^ 100" using qub xh x63 by simp
  from nearest_double_error [OF qlo this]
  obtain p where p: "nearest_double (q * 100) = Some p" "\<bar>p - q * 100\<bar> \<le> q * 100 / 2 ^ 53" by blast
  have R0: "0 \<le> R" using x0 by (simp add: R)
  have "\<bar>q * 100 - R\<bar> = \<bar>100 * (q - x)\<bar>" by (simp add: R algebra_simps)
  also have "\<dots> = 100 * \<bar>q - x\<bar>" by (simp only: abs_mult abs_numeral)
  also have "\<dots> \<le> 100 * (x / 2 ^ 53)" using q(2) by (intro mult_left_mono) simp_all
  also have "\<dots> = R / 2 ^ 53" by (simp add: R)
  finally have e1: "\<bar>q * 100 - R\<bar> \<le> R / 2 ^ 53" .
  have "q * 100 \<le> 2 * R" using qub xh by (simp add: R)
  then have "q * 100 / 2 ^ 53 \<le> 2 * R / 2 ^ 53" by (simp add: divide_right_mono)
  with p(2) have e2: "\<bar>p - q * 100\<bar> \<le> 2 * R / 2 ^ 53" by linarith
  have e3: "\<bar>p - R\<bar> \<le> 3 * R / 2 ^ 53" using e1 e2 by linarith
  have "3 * R / 2 ^ 53 \<le> R / 2 ^ 51" using R0 by simp
  with e3 have e4: "\<bar>p - R\<bar> \<le> R / 2 ^ 51" by linarith
  have "0 \<le> q * 100" using q0 by simp
  from div_pow2_le [OF this, of 53] p(2) this have p0: "0 \<le> p" by linarith
  define k where "k = round_half_even (p * 10)"
  define y where "y = (of_int k :: rat) / 10"
  have "\<bar>of_int k - p * 10\<bar> \<le> 1 / 2" unfolding k_def by (rule round_half_even_abs)
  then have e5: "\<bar>y - p\<bar> \<le> 1 / 20" by (simp add: y_def field_simps abs_if split: if_splits)
  from e4 e5 have e6: "\<bar>y - R\<bar> \<le> 1 / 20 + R / 2 ^ 51" by linarith
  have "0 \<le> p * 10" using p0 by simp
  then have k0: "0 \<le> k" unfolding k_def by (rule round_half_even_nonneg)
  have ylo: "y = 0 \<or> 1 / 2 ^ 1022 \<le> y"
  proof (cases "k = 0")
    case True then show ?thesis by (simp add: y_def)
  next
    case False
    with k0 have "1 \<le> k" by simp
    then have "(of_int 1 :: rat) \<le> of_int k" by (simp only: of_int_le_iff)
    then have "1 / 10 \<le> y" by (simp add: y_def)
    moreover have "(1::rat) / 2 ^ 64 \<le> 1 / 10" by simp
    ultimately show ?thesis using t63 by linarith
  qed
  have R65: "R \<le> 2 ^ 70" using x63 by (simp add: R)
  have "R / 2 ^ 51 \<le> R" using R0 by (rule div_pow2_le)
  with e6 have yub: "y \<le> 2 * R + 1" by linarith
  then have "y \<le> 2 ^ 100" using R65 by simp
  from nearest_double_error [OF ylo this]
  obtain c where c: "nearest_double y = Some c" "\<bar>c - y\<bar> \<le> y / 2 ^ 53" by blast
  have "y / 2 ^ 53 \<le> (2 * R + 1) / 2 ^ 53" using yub by (simp add: divide_right_mono)
  with c(2) e6 have "\<bar>c - R\<bar> \<le> 1 / 20 + R / 2 ^ 51 + (2 * R + 1) / 2 ^ 53" by linarith
  moreover have "R / 2 ^ 51 + (2 * R + 1) / 2 ^ 53 \<le> (R + 1) / 2 ^ 50" using R0 by (simp add: field_simps)
  ultimately have e7: "\<bar>c - R\<bar> \<le> 1 / 20 + (R + 1) / 2 ^ 50" by linarith
  have bn: "int (length txt) \<noteq> 0" using assms(1) by simp
  have qd: "int_truediv (int (length summary_text)) (int (length txt)) = Inr (Finite q)"
    using q(1) bn by (simp add: int_truediv_def x_def a_def b_def)
  have m: "float_mul (Finite q) (Finite 100) = Finite p"
    using p(1) by simp
  have r: "py_round (Finite p) 1 = Inr (Finite c)"
    using c(1) by (simp add: y_def k_def)
  have cr: "compression_ratio summary_text txt = Inr (Finite c)"
    using qd m r by (simp add: compression_ratio_def)
  have "nearest_double (of_nat (length summary_text) / of_nat (length txt)) = Some q"
    using q(1) by (simp add: x_def a_def b_def)
  moreover have "nearest_double (of_int (round_half_even (p * 10)) / 10) = Some c"
    using c(1) by (simp add: y_def k_def)
  moreover have "\<bar>of_int (round_half_even (p * 10)) / 10 - R\<bar> \<le> 1 / 20 + R / 2 ^ 51"
    using e6 by (simp add: y_def k_def)
  ultimately show ?thesis using p(1) cr e7 by blast
qed

subsection \<open>The cache key\<close>

text \<open>
  C5: the cache key is a function of the first 1000 characters of the text and of the
  length option only: two texts with the same first 1000 characters and the same length
  option have the same key, whatever follows; in particular equal arguments give equal
  keys.
\<close>

theorem get_cache_key_prefix_only:
  "take 1000 text1 = take 1000 text2 \<Longrightarrow>
   get_cache_key md5hex text1 len = get_cache_key md5hex text2 len"
  by (simp add: get_cache_key_def)

theorem get_cache_key_prefix_only_witness:
  "take 1000 (replicate 1000 CHR ''a'' @ ''xyz'') = take 1000 (replicate 1000 CHR ''a'' @ ''another tail'')
   \<and> replicate 1000 CHR ''a'' @ ''xyz'' \<noteq> replicate 1000 CHR ''a'' @ ''another tail''
   \<and> get_cache_key id (replicate 1000 CHR ''a'' @ ''xyz'') ''short''
     = get_cache_key id (replicate 1000 CHR ''a'' @ ''another tail'') ''short''"
proof -
  have h: "take 1000 (replicate 1000 CHR ''a'' @ ''xyz'') = take 1000 (replicate 1000 CHR ''a'' @ ''another tail'')"
    by simp
  from get_cache_key_prefix_only [OF h, of id "''short''"] h show ?thesis
    by simp
qed

subsection \<open>Input validation\<close>

text \<open>
  C6: \<open>validate_input\<close> checks all four rules: each message is in the returned list
  exactly when its rule is violated. At the boundaries, a text of 29 words gets
  "Text too short (minimum 30 words)" and a text of 30 words does not; a text of 10001
  characters gets "Text too long (max 10,000 characters)" and a text of 10000 characters does
  not. When the list is not empty, the view \<open>summarize\<close> answers 400 with the first message
  only, and leaves the state as it was.
\<close>

theorem validate_input_rules:
  "(''Text cannot be empty'' \<in> set (validate_input text len)) = (text = [] \<or> py_strip text = [])
   \<and> (''Text too long (max 10,000 characters)'' \<in> set (validate_input text len)) = (10000 < length text)
   \<and> (''Text too short (minimum 30 words)'' \<in> set (validate_input text len)) = (length (py_split text) < 30)
   \<and> (''Invalid length option'' \<in> set (validate_input text len))
        = (len \<noteq> ''short'' \<and> len \<noteq> ''medium'' \<and> len \<noteq> ''long'')
   \<and> (length (py_split text) = 29 \<longrightarrow> ''Text too short (minimum 30 words)'' \<in> set (validate_input text len))
   \<and> (length (py_split text) = 30 \<longrightarrow> ''Text too short (minimum 30 words)'' \<notin> set (validate_input text len))
   \<and> (length text = 10001 \<longrightarrow> ''Text too long (max 10,000 characters)'' \<in> set (validate_input text len))
   \<and> (length text = 10000 \<longrightarrow> ''Text too long (max 10,000 characters)'' \<notin> set (validate_input text len))
   \<and> (get_json req = Inr (JDict kvs) \<and> kvs \<noteq> []
        \<and> dict_get kvs ''text'' (JStr []) = JStr raw_text
        \<and> dict_get kvs ''length'' (JStr ''medium'') = JStr raw_length
        \<and> validate_input (py_strip raw_text) (py_lower raw_length) = e # es
      \<longrightarrow> summarize env req w = (\<lparr>body = JDict [(''error'', JStr e)], status = 400\<rparr>, w))"
  by (simp add: validate_input_def summarize_def)

theorem validate_input_rules_witness:
  "length (py_split (concat (replicate 29 ''word ''))) = 29
   \<and> ''Text too short (minimum 30 words)'' \<in> set (validate_input (concat (replicate 29 ''word '')) ''short'')
   \<and> length (py_split (concat (replicate 30 ''word ''))) = 30
   \<and> ''Text too short (minimum 30 words)'' \<notin> set (validate_input (concat (replicate 30 ''word '')) ''short'')
   \<and> length (replicate 10001 CHR ''a'') = 10001
   \<and> ''Text too long (max 10,000 characters)'' \<in> set (validate_input (replicate 10001 CHR ''a'') ''short'')
   \<and> length (replicate 10000 CHR ''a'') = 10000
   \<and> ''Text too long (max 10,000 characters)'' \<notin> set (validate_input (replicate 10000 CHR ''a'') ''short'')
   \<and> validate_input (py_strip '' hi '') (py_lower ''HUGE'')
        = [''Text too short (minimum 30 words)'', ''Invalid length option'']
   \<and> summarize example_env (example_request '' hi '' ''HUGE'') example_world
        = (\<lparr>body = JDict [(''error'', JStr ''Text too short (minimum 30 words)'')], status = 400\<rparr>,
           example_world)"
proof -
  have w29: "length (py_split (concat (replicate 29 ''word ''))) = 29"
    by code_simp
  have w30: "length (py_split (concat (replicate 30 ''word ''))) = 30"
    by code_simp
  have c1: "length (replicate 10001 CHR ''a'') = 10001" and c0: "length (replicate 10000 CHR ''a'') = 10000"
    by simp_all
  have v: "validate_input (py_strip '' hi '') (py_lower ''HUGE'')
             = [''Text too short (minimum 30 words)'', ''Invalid length option'']"
    by code_simp
  have r: "get_json (example_request '' hi '' ''HUGE'')
             = Inr (JDict [(''text'', JStr '' hi ''), (''length'', JStr ''HUGE'')])"
    by (simp add: example_request_def)
  have d1: "dict_get [(''text'', JStr '' hi ''), (''length'', JStr ''HUGE'')] ''text'' (JStr []) = JStr '' hi ''"
    by (simp add: dict_get_def)
  have d2: "dict_get [(''text'', JStr '' hi ''), (''length'', JStr ''HUGE'')] ''length'' (JStr ''medium'') = JStr ''HUGE''"
    by (simp add: dict_get_def)
  have t29: "''Text too short (minimum 30 words)'' \<in> set (validate_input (concat (replicate 29 ''word '')) ''short'')"
    using validate_input_rules [of "concat (replicate 29 ''word '')" "''short''"] w29 by blast
  have t30: "''Text too short (minimum 30 words)'' \<notin> set (validate_input (concat (replicate 30 ''word '')) ''short'')"
    using validate_input_rules [of "concat (replicate 30 ''word '')" "''short''"] w30 by blast
  have l1: "''Text too long (max 10,000 characters)'' \<in> set (validate_input (replicate 10001 CHR ''a'') ''short'')"
    using validate_input_rules [of "replicate 10001 CHR ''a''" "''short''"] c1 by blast
  have l0: "''Text too long (max 10,000 characters)'' \<notin> set (validate_input (replicate 10000 CHR ''a'') ''short'')"
    using validate_input_rules [of "replicate 10000 CHR ''a''" "''short''"] c0 by blast
  have h: "summarize example_env (example_request '' hi '' ''HUGE'') example_world
        = (\<lparr>body = JDict [(''error'', JStr ''Text too short (minimum 30 words)'')], status = 400\<rparr>,
           example_world)"
    using validate_input_rules [where req = "example_request '' hi '' ''HUGE''"
        and kvs = "[(''text'', JStr '' hi ''), (''length'', JStr ''HUGE'')]"
        and raw_text = "'' hi ''" and raw_length = "''HUGE''"
        and e = "''Text too short (minimum 30 words)''" and es = "[''Invalid length option'']"
        and env = example_env and w = example_world] r d1 d2 v
    by blast
  from w29 w30 c1 c0 v t29 t30 l1 l0 h show ?thesis
    by blast
qed

subsection \<open>The health check\<close>

text \<open>
  C10: a 200 response of \<open>health_check\<close> always reports \<open>model_loaded\<close> true, and the model
  is loaded afterwards: when it was not loaded before, the health check itself has called
  the pipeline constructor, which has returned the model.
\<close>

theorem health_check_ok_model_loaded:
  "health_check env w = (resp, w') \<Longrightarrow> status resp = 200 \<Longrightarrow>
     body resp = JDict [(''status'', JStr ''healthy''),
                        (''model_loaded'', JBool True),
                        (''redis'', JStr (if REDIS_AVAILABLE w then ''connected'' else ''disconnected'')),
                        (''timestamp'', JStr (utcnow_isoformat env))]
     \<and> model_slot w' \<noteq> None
     \<and> (model_slot w = None \<longrightarrow> (\<exists>m. load_pipeline env = Inr m \<and> model_slot w' = Some m))"
  by (auto simp: health_check_def get_model_def advance_def Let_def
           split: option.splits sum.splits prod.splits)

theorem health_check_ok_model_loaded_witness:
  "status (fst (health_check example_env example_world)) = 200
   \<and> model_slot example_world = None
   \<and> body (fst (health_check example_env example_world))
       = JDict [(''status'', JStr ''healthy''),
                (''model_loaded'', JBool True),
                (''redis'', JStr ''connected''),
                (''timestamp'', JStr ''2024-01-01T00:00:00'')]
   \<and> model_slot (snd (health_check example_env example_world)) = Some ()"
proof -
  have s: "status (fst (health_check example_env example_world)) = 200"
    by (simp add: health_check_def get_model_def example_env_def example_world_def advance_def)
  have p: "health_check example_env example_world
             = (fst (health_check example_env example_world), snd (health_check example_env example_world))"
    by simp
  from health_check_ok_model_loaded [OF p s] s show ?thesis
    by (simp add: example_env_def example_world_def)
qed

subsection \<open>Failures of the model\<close>

text \<open>
  C7: on a valid request that misses the cache, when loading the model or running it
  raises \<open>e\<close>, \<open>generate_summary\<close> raises \<open>e\<close> again and the view \<open>summarize\<close> returns
  the 500 response whose \<open>message\<close> is \<open>str(e)\<close>: the view returns a response, the
  exception does not leave it.
\<close>

theorem model_failure_is_internal_error:
  assumes miss: "get_cached_summary env text len w = None
                 \<or> (\<exists>c. get_cached_summary env text len w = Some c \<and> \<not> truthy c)"
      and fails: "fst (get_model env w) = Inl e
                 \<or> (\<exists>m. fst (get_model env w) = Inr (Some m)
                        \<and> run_model env m text (fst (length_config len)) (snd (length_config len)) = Inl e)"
      and req: "get_json req = Inr (JDict kvs)" "kvs \<noteq> []"
               "dict_get kvs ''text'' (JStr []) = JStr raw_text"
               "dict_get kvs ''length'' (JStr ''medium'') = JStr raw_length"
               "text = py_strip raw_text" "len = py_lower raw_length"
               "validate_input text len = []"
  shows "fst (generate_summary env text len w) = Inl e
         \<and> fst (summarize env req w)
             = \<lparr>body = JDict [(''success'', JBool False),
                              (''error'', JStr ''Internal server error''),
                              (''message'', JStr (exc_str e))],
                status = 500\<rparr>"
proof -
  have g: "fst (generate_summary env text len w) = Inl e"
    using miss fails
    by (auto simp: generate_summary_def Let_def split: prod.splits sum.splits option.splits)
  then have "fst (summarize env req w) = internal_error e"
    using req
    by (auto simp: summarize_def Let_def split: prod.splits sum.splits)
  with g show ?thesis
    by (simp add: internal_error_def)
qed

theorem model_failure_is_internal_error_witness:
  "validate_input (py_strip example_text) (py_lower ''Medium'') = []
   \<and> get_cached_summary failing_env (py_strip example_text) (py_lower ''Medium'') example_world = None
   \<and> fst (get_model failing_env example_world) = Inr (Some ())
   \<and> run_model failing_env () (py_strip example_text) 130 30 = Inl (Exc ''RuntimeError'' ''CUDA out of memory'')
   \<and> fst (generate_summary failing_env (py_strip example_text) (py_lower ''Medium'') example_world)
        = Inl (Exc ''RuntimeError'' ''CUDA out of memory'')
   \<and> fst (summarize failing_env (example_request example_text ''Medium'') example_world)
        = \<lparr>body = JDict [(''success'', JBool False),
                         (''error'', JStr ''Internal server error''),
                         (''message'', JStr ''CUDA out of memory'')],
           status = 500\<rparr>"
proof -
  have v: "validate_input (py_strip example_text) (py_lower ''Medium'') = []"
    by code_simp
  have lw: "py_lower ''Medium'' = ''medium''"
    by code_simp
  have miss: "get_cached_summary failing_env (py_strip example_text) (py_lower ''Medium'') example_world = None"
    by (simp add: get_cached_summary_def redis_get_def redis_entry_def example_world_def)
  have gm: "fst (get_model failing_env example_world) = Inr (Some ())"
    by (simp add: get_model_def failing_env_def example_env_def example_world_def advance_def)
  have rm: "run_model failing_env () (py_strip example_text) 130 30 = Inl (Exc ''RuntimeError'' ''CUDA out of memory'')"
    by (simp add: failing_env_def)
  have lc: "length_config (py_lower ''Medium'') = (130, 30)"
    by (simp add: lw length_config_def)
  have r: "get_json (example_request example_text ''Medium'')
             = Inr (JDict [(''text'', JStr example_text), (''length'', JStr ''Medium'')])"
    by (simp add: example_request_def)
  have d1: "dict_get [(''text'', JStr example_text), (''length'', JStr ''Medium'')] ''text'' (JStr []) = JStr example_text"
    by (simp add: dict_get_def)
  have d2: "dict_get [(''text'', JStr example_text), (''length'', JStr ''Medium'')] ''length'' (JStr ''medium'') = JStr ''Medium''"
    by (simp add: dict_get_def)
  have f: "fst (get_model failing_env example_world) = Inl (Exc ''RuntimeError'' ''CUDA out of memory'')
           \<or> (\<exists>m. fst (get_model failing_env example_world) = Inr (Some m)
                  \<and> run_model failing_env m (py_strip example_text)
                       (fst (length_config (py_lower ''Medium''))) (snd (length_config (py_lower ''Medium'')))
                     = Inl (Exc ''RuntimeError'' ''CUDA out of memory''))"
    using gm rm by (simp add: lc)
  have "fst (generate_summary failing_env (py_strip example_text) (py_lower ''Medium'') example_world)
          = Inl (Exc ''RuntimeError'' ''CUDA out of memory'')
        \<and> fst (summarize failing_env (example_request example_text ''Medium'') example_world)
          = \<lparr>body = JDict [(''success'', JBool False),
                           (''error'', JStr ''Internal server error''),
                           (''message'', JStr (exc_str (Exc ''RuntimeError'' ''CUDA out of memory'')))],
             status = 500\<rparr>"
    by (rule model_failure_is_internal_error [OF disjI1 [OF miss] f r _ d1 d2 refl refl v]) simp
  with v miss gm rm show ?thesis by simp
qed

subsection \<open>The compression ratio\<close>

lemma compression_ratio_150_1000:
  assumes "length summary_text = 150" "length body_text = 1000"
  shows "compression_ratio summary_text body_text = Inr (Finite 15)"
proof -
  have q: "int_truediv 150 1000 = Inr (Finite (5404319552844595 / 36028797018963968))"
    by code_simp
  have m: "float_mul (Finite (5404319552844595 / 36028797018963968)) (Finite 100) = Finite 15"
    by code_simp
  have r: "py_round (Finite 15) 1 = Inr (Finite 15)"
    by code_simp
  have i: "int (length summary_text) = 150" "int (length body_text) = 1000"
    using assms by simp_all
  show ?thesis
    unfolding compression_ratio_def i q
    by (simp only: sum.case m r)
qed

text \<open>
  C9: on a cache miss, the \<open>compression_ratio\<close> field of the response is
  \<open>round(len(summary_text) / len(text) * 100, 1)\<close> over the two character counts.
  For a text of 1000 characters and a summary of 150 characters it is exactly 15.0.
  In general, for a non-empty text (both lengths below \<open>2 ^ 63\<close>, as every CPython str),
  the value is obtained by three float operations: the quotient of the lengths rounded to
  a double \<open>q\<close>, the product \<open>q * 100\<close> rounded to a double \<open>p\<close>, and \<open>p\<close> rounded
  to the nearest multiple of one tenth, returned as the double nearest to it. That
  multiple of one tenth differs from the exact percentage \<open>100 * len(summary_text) / len(text)\<close>
  by at most one twentieth, up to the relative error \<open>1 / 2 ^ 51\<close> of the float operations,
  and so does the returned double (up to \<open>1 / 2 ^ 50\<close>). The value depends on the character
  counts only: two summaries with the same number of characters and different numbers of
  words give the same ratio.
\<close>

theorem compression_ratio_over_characters:
  "(length text = 1000 \<and> length summary_text = 150
      \<longrightarrow> compression_ratio summary_text text = Inr (Finite 15))
   \<and> (text \<noteq> [] \<and> length text < 2 ^ 63 \<and> length summary_text < 2 ^ 63
      \<longrightarrow> (\<exists>q p c.
             nearest_double (of_nat (length summary_text) / of_nat (length text)) = Some q
           \<and> nearest_double (q * 100) = Some p
           \<and> nearest_double (of_int (round_half_even (p * 10)) / 10) = Some c
           \<and> compression_ratio summary_text text = Inr (Finite c)
           \<and> \<bar>(of_int (round_half_even (p * 10)) :: rat) / 10
                 - 100 * of_nat (length summary_text) / of_nat (length text)\<bar>
               \<le> 1 / 20 + (100 * of_nat (length summary_text) / of_nat (length text)) / 2 ^ 51
           \<and> \<bar>c - 100 * of_nat (length summary_text) / of_nat (length text)\<bar>
               \<le> 1 / 20 + (100 * of_nat (length summary_text) / of_nat (length text) + 1) / 2 ^ 50))
   \<and> (length s1 = length s2 \<and> length t1 = length t2
      \<longrightarrow> compression_ratio s1 t1 = compression_ratio s2 t2)
   \<and> ((get_cached_summary env text len w = None
         \<or> (\<exists>c. get_cached_summary env text len w = Some c \<and> \<not> truthy c))
       \<and> fst (get_model env w) = Inr (Some m)
       \<and> run_model env m text (fst (length_config len)) (snd (length_config len)) = Inr summary_text
       \<and> compression_ratio summary_text text = Inr ratio
      \<longrightarrow> (\<exists>kvs. fst (generate_summary env text len w) = Inr (JDict kvs)
                 \<and> map_of kvs ''compression_ratio'' = Some (JFloat ratio)))"
proof (intro conjI impI)
  assume "length text = 1000 \<and> length summary_text = 150"
  then show "compression_ratio summary_text text = Inr (Finite 15)"
    using compression_ratio_150_1000 by blast
next
  assume "text \<noteq> [] \<and> length text < 2 ^ 63 \<and> length summary_text < 2 ^ 63"
  then have h: "text \<noteq> []" "length text < 2 ^ 63" "length summary_text < 2 ^ 63"
    by simp_all
  show "\<exists>q p c.
             nearest_double (of_nat (length summary_text) / of_nat (length text)) = Some q
           \<and> nearest_double (q * 100) = Some p
           \<and> nearest_double (of_int (round_half_even (p * 10)) / 10) = Some c
           \<and> compression_ratio summary_text text = Inr (Finite c)
           \<and> \<bar>(of_int (round_half_even (p * 10)) :: rat) / 10
                 - 100 * of_nat (length summary_text) / of_nat (length text)\<bar>
               \<le> 1 / 20 + (100 * of_nat (length summary_text) / of_nat (length text)) / 2 ^ 51
           \<and> \<bar>c - 100 * of_nat (length summary_text) / of_nat (length text)\<bar>
               \<le> 1 / 20 + (100 * of_nat (length summary_text) / of_nat (length text) + 1) / 2 ^ 50"
    by (rule compression_ratio_value [OF h])
next
  assume "length s1 = length s2 \<and> length t1 = length t2"
  then show "compression_ratio s1 t1 = compression_ratio s2 t2"
    by (simp add: compression_ratio_def)
next
  assume h: "(get_cached_summary env text len w = None
         \<or> (\<exists>c. get_cached_summary env text len w = Some c \<and> \<not> truthy c))
       \<and> fst (get_model env w) = Inr (Some m)
       \<and> run_model env m text (fst (length_config len)) (snd (length_config len)) = Inr summary_text
       \<and> compression_ratio summary_text text = Inr ratio"
  then have miss: "get_cached_summary env text len w = None
         \<or> (\<exists>c. get_cached_summary env text len w = Some c \<and> \<not> truthy c)"
    and gm: "fst (get_model env w) = Inr (Some m)"
    and rm: "run_model env m text (fst (length_config len)) (snd (length_config len)) = Inr summary_text"
    and cr: "compression_ratio summary_text text = Inr ratio"
    by blast+
  from miss have m': "(case get_cached_summary env text len w of
                         None \<Rightarrow> None
                       | Some c \<Rightarrow> if truthy c then Some c else None) = None"
    by auto
  obtain w1 where g: "get_model env w = (Inr (Some m), w1)"
    using gm by (cases "get_model env w") simp
  show "\<exists>kvs. fst (generate_summary env text len w) = Inr (JDict kvs)
               \<and> map_of kvs ''compression_ratio'' = Some (JFloat ratio)"
    unfolding generate_summary_def m'
    by (simp add: g rm cr Let_def case_prod_beta)
qed

theorem compression_ratio_over_characters_witness:
  "length (replicate 1000 CHR ''b'') = 1000
   \<and> length (take 150 (replicate 1000 CHR ''b'')) = 150
   \<and> compression_ratio (take 150 (replicate 1000 CHR ''b'')) (replicate 1000 CHR ''b'') = Inr (Finite 15)
   \<and> (\<exists>q p c.
          nearest_double (of_nat (length ''ab cd'') / of_nat (length ''0123456789'')) = Some q
        \<and> nearest_double (q * 100) = Some p
        \<and> nearest_double (of_int (round_half_even (p * 10)) / 10) = Some c
        \<and> compression_ratio ''ab cd'' ''0123456789'' = Inr (Finite c)
        \<and> \<bar>(of_int (round_half_even (p * 10)) :: rat) / 10
              - 100 * of_nat (length ''ab cd'') / of_nat (length ''0123456789'')\<bar>
            \<le> 1 / 20 + (100 * of_nat (length ''ab cd'') / of_nat (length ''0123456789'')) / 2 ^ 51
        \<and> \<bar>c - 100 * of_nat (length ''ab cd'') / of_nat (length ''0123456789'')\<bar>
            \<le> 1 / 20 + (100 * of_nat (length ''ab cd'') / of_nat (length ''0123456789'') + 1) / 2 ^ 50)
   \<and> length (py_split ''ab cd'') = 2 \<and> length (py_split ''abcde'') = 1
   \<and> compression_ratio ''ab cd'' ''0123456789'' = compression_ratio ''abcde'' ''0123456789''
   \<and> get_cached_summary example_env (replicate 1000 CHR ''b'') ''medium'' example_world = None
   \<and> fst (get_model example_env example_world) = Inr (Some ())
   \<and> (\<exists>kvs. fst (generate_summary example_env (replicate 1000 CHR ''b'') ''medium'' example_world) = Inr (JDict kvs)
            \<and> map_of kvs ''compression_ratio'' = Some (JFloat (Finite 15)))"
proof -
  have l1: "length (replicate 1000 CHR ''b'') = 1000" by simp
  have l2: "length (take 150 (replicate 1000 CHR ''b'')) = 150" by simp
  have cr: "compression_ratio (take 150 (replicate 1000 CHR ''b'')) (replicate 1000 CHR ''b'') = Inr (Finite 15)"
    by (rule compression_ratio_over_characters [THEN conjunct1, rule_format]) (simp only: l1 l2 simp_thms)
  have gen: "\<exists>q p c.
          nearest_double (of_nat (length ''ab cd'') / of_nat (length ''0123456789'')) = Some q
        \<and> nearest_double (q * 100) = Some p
        \<and> nearest_double (of_int (round_half_even (p * 10)) / 10) = Some c
        \<and> compression_ratio ''ab cd'' ''0123456789'' = Inr (Finite c)
        \<and> \<bar>(of_int (round_half_even (p * 10)) :: rat) / 10
              - 100 * of_nat (length ''ab cd'') / of_nat (length ''0123456789'')\<bar>
            \<le> 1 / 20 + (100 * of_nat (length ''ab cd'') / of_nat (length ''0123456789'')) / 2 ^ 51
        \<and> \<bar>c - 100 * of_nat (length ''ab cd'') / of_nat (length ''0123456789'')\<bar>
            \<le> 1 / 20 + (100 * of_nat (length ''ab cd'') / of_nat (length ''0123456789'') + 1) / 2 ^ 50"
    by (rule compression_ratio_over_characters [THEN conjunct2, THEN conjunct1, rule_format]) simp
  have sp: "length (py_split ''ab cd'') = 2" "length (py_split ''abcde'') = 1"
    by code_simp+
  have same: "compression_ratio ''ab cd'' ''0123456789'' = compression_ratio ''abcde'' ''0123456789''"
    by (rule compression_ratio_over_characters
              [THEN conjunct2, THEN conjunct2, THEN conjunct1, rule_format]) simp
  have miss: "get_cached_summary example_env (replicate 1000 CHR ''b'') ''medium'' example_world = None"
    by (simp add: get_cached_summary_def redis_get_def redis_entry_def example_world_def)
  have gm: "fst (get_model example_env example_world) = Inr (Some ())"
    by (simp add: get_model_def example_env_def example_world_def advance_def)
  have rm: "run_model example_env () (replicate 1000 CHR ''b'')
              (fst (length_config ''medium'')) (snd (length_config ''medium''))
            = Inr (take 150 (replicate 1000 CHR ''b''))"
    by (simp add: example_env_def)
  have g: "\<exists>kvs. fst (generate_summary example_env (replicate 1000 CHR ''b'') ''medium'' example_world) = Inr (JDict kvs)
            \<and> map_of kvs ''compression_ratio'' = Some (JFloat (Finite 15))"
    by (rule compression_ratio_over_characters
               [where m = "()" and summary_text = "take 150 (replicate 1000 CHR ''b'')",
                THEN conjunct2, THEN conjunct2, THEN conjunct2, rule_format])
       (intro conjI disjI1 miss gm rm cr)
  from l1 l2 cr gen sp same miss gm g show ?thesis by (intro conjI)
qed

subsection \<open>An unreachable store\<close>

lemma get_cached_summary_unreachable:
  "\<not> REDIS_AVAILABLE w \<or> failure (redis w) = Some err \<Longrightarrow> get_cached_summary env text len w = None"
  by (auto simp: get_cached_summary_def redis_get_def Let_def)

lemma cache_summary_unreachable:
  "\<not> REDIS_AVAILABLE w \<or> failure (redis w) = Some err \<Longrightarrow> cache_summary env text len d w = w"
  by (auto simp: cache_summary_def redis_setex_def Let_def)

lemma rate_limit_unreachable:
  "\<not> REDIS_AVAILABLE w \<or> failure (redis w) = Some err \<Longrightarrow> rate_limit mx win f req w = f req w"
  by (auto simp: rate_limit_def redis_get_def Let_def)

lemma get_model_keeps_redis_status:
  "get_model env w = (res, w1) \<Longrightarrow>
     REDIS_AVAILABLE w1 = REDIS_AVAILABLE w \<and> failure (redis w1) = failure (redis w)"
  by (auto simp: get_model_def advance_def Let_def split: option.splits sum.splits)

text \<open>
  C3: when the store is unreachable (the flag \<open>REDIS_AVAILABLE\<close> is off, or every command
  raises a connection error or a timeout), \<open>get_cached_summary\<close> returns \<open>None\<close> and
  \<open>cache_summary\<close> returns without any effect: the exception stays inside the cache layer.
  A valid request to \<open>/api/summarize\<close> whose model call returns a summary (of a length a
  CPython str can have) is then answered 200, with \<open>cached\<close> false.
\<close>

theorem cache_failures_absorbed:
  assumes down: "\<not> REDIS_AVAILABLE w \<or> failure (redis w) = Some err"
  shows "get_cached_summary env t len w = None
       \<and> cache_summary env t len summary_data w = w
       \<and> (get_json req = Inr (JDict kvs) \<and> kvs \<noteq> []
            \<and> dict_get kvs ''text'' (JStr []) = JStr raw_text
            \<and> dict_get kvs ''length'' (JStr ''medium'') = JStr raw_length
            \<and> validate_input (py_strip raw_text) (py_lower raw_length) = []
            \<and> fst (get_model env w) = Inr (Some m)
            \<and> run_model env m (py_strip raw_text)
                 (fst (length_config (py_lower raw_length))) (snd (length_config (py_lower raw_length)))
               = Inr summary_text
            \<and> length summary_text < 2 ^ 63
          \<longrightarrow> (\<exists>result. fst (api_summarize env req w)
                            = \<lparr>body = JDict [(''success'', JBool True), (''data'', JDict result)],
                               status = 200\<rparr>
                        \<and> map_of result ''summary'' = Some (JStr summary_text)
                        \<and> map_of result ''cached'' = Some (JBool False)))"
proof (intro conjI impI)
  show "get_cached_summary env t len w = None"
    using down by (rule get_cached_summary_unreachable)
  show "cache_summary env t len summary_data w = w"
    using down by (rule cache_summary_unreachable)
next
  assume h: "get_json req = Inr (JDict kvs) \<and> kvs \<noteq> []
            \<and> dict_get kvs ''text'' (JStr []) = JStr raw_text
            \<and> dict_get kvs ''length'' (JStr ''medium'') = JStr raw_length
            \<and> validate_input (py_strip raw_text) (py_lower raw_length) = []
            \<and> fst (get_model env w) = Inr (Some m)
            \<and> run_model env m (py_strip raw_text)
                 (fst (length_config (py_lower raw_length))) (snd (length_config (py_lower raw_length)))
               = Inr summary_text
            \<and> length summary_text < 2 ^ 63"
  define body_text where "body_text = py_strip raw_text"
  define lopt where "lopt = py_lower raw_length"
  from h have v: "validate_input body_text lopt = []"
    by (simp add: body_text_def lopt_def)
  then have ne: "body_text \<noteq> []"
    by (auto simp: validate_input_def split: if_splits)
  from h obtain w1 where g: "get_model env w = (Inr (Some m), w1)"
    by (cases "get_model env w") simp
  from get_model_keeps_redis_status [OF g] down
  have down1: "\<not> REDIS_AVAILABLE w1 \<or> failure (redis w1) = Some err"
    by simp
  then have down2: "\<not> REDIS_AVAILABLE (advance (model_seconds env) w1)
                    \<or> failure (redis (advance (model_seconds env) w1)) = Some err"
    by (simp add: advance_def)
  from h have rm: "run_model env m body_text (fst (length_config lopt)) (snd (length_config lopt))
                     = Inr summary_text"
    by (simp add: body_text_def lopt_def)
  from h have "length summary_text < 2 ^ 63" by simp
  from compression_ratio_returns [OF this ne]
  obtain c where cr: "compression_ratio summary_text body_text = Inr (Finite c)" by blast
  have miss: "get_cached_summary env body_text lopt w = None"
    using down by (rule get_cached_summary_unreachable)
  have gs: "\<exists>result. fst (generate_summary env body_text lopt w) = Inr (JDict result)
                  \<and> map_of result ''summary'' = Some (JStr summary_text)
                  \<and> map_of result ''cached'' = Some (JBool False)"
    unfolding generate_summary_def miss
    by (simp add: g rm cr Let_def case_prod_beta cache_summary_unreachable [OF down2])
  then obtain result where r: "fst (generate_summary env body_text lopt w) = Inr (JDict result)"
      "map_of result ''summary'' = Some (JStr summary_text)"
      "map_of result ''cached'' = Some (JBool False)"
    by blast
  have "api_summarize env req w = summarize env req w"
    unfolding api_summarize_def using down by (rule rate_limit_unreachable)
  moreover have "fst (summarize env req w)
                   = \<lparr>body = JDict [(''success'', JBool True), (''data'', JDict result)], status = 200\<rparr>"
    using h v r(1)
    by (auto simp: summarize_def Let_def body_text_def lopt_def split: prod.splits sum.splits)
  ultimately show "\<exists>result. fst (api_summarize env req w)
                            = \<lparr>body = JDict [(''success'', JBool True), (''data'', JDict result)],
                               status = 200\<rparr>
                        \<and> map_of result ''summary'' = Some (JStr summary_text)
                        \<and> map_of result ''cached'' = Some (JBool False)"
    using r(2,3) by auto
qed

theorem cache_failures_absorbed_witness:
  "failure (redis unreachable_world)
     = Some (Exc ''ConnectionError'' ''Error 111 connecting to localhost:6379. Connection refused.'')
   \<and> get_cached_summary example_env example_text ''medium'' unreachable_world = None
   \<and> cache_summary example_env example_text ''medium'' JNull unreachable_world = unreachable_world
   \<and> validate_input (py_strip example_text) (py_lower ''Medium'') = []
   \<and> (\<exists>result. fst (api_summarize example_env (example_request example_text ''Medium'') unreachable_world)
                    = \<lparr>body = JDict [(''success'', JBool True), (''data'', JDict result)], status = 200\<rparr>
                \<and> map_of result ''summary'' = Some (JStr (take 150 (py_strip example_text)))
                \<and> map_of result ''cached'' = Some (JBool False))"
proof -
  let ?err = "Exc ''ConnectionError'' ''Error 111 connecting to localhost:6379. Connection refused.''"
  have f: "failure (redis unreachable_world) = Some ?err"
    by (simp add: unreachable_world_def)
  then have down: "\<not> REDIS_AVAILABLE unreachable_world \<or> failure (redis unreachable_world) = Some ?err"
    by (rule disjI2)
  note inst = cache_failures_absorbed [OF down,
      where env = example_env and t = example_text and len = "''medium''" and summary_data = JNull
        and req = "example_request example_text ''Medium''"
        and kvs = "[(''text'', JStr example_text), (''length'', JStr ''Medium'')]"
        and raw_text = example_text and raw_length = "''Medium''" and m = "()"
        and summary_text = "take 150 (py_strip example_text)"]
  have v: "validate_input (py_strip example_text) (py_lower ''Medium'') = []"
    by code_simp
  have r: "get_json (example_request example_text ''Medium'')
             = Inr (JDict [(''text'', JStr example_text), (''length'', JStr ''Medium'')])"
    by (simp add: example_request_def)
  have d1: "dict_get [(''text'', JStr example_text), (''length'', JStr ''Medium'')] ''text'' (JStr []) = JStr example_text"
    by (simp add: dict_get_def)
  have d2: "dict_get [(''text'', JStr example_text), (''length'', JStr ''Medium'')] ''length'' (JStr ''medium'') = JStr ''Medium''"
    by (simp add: dict_get_def)
  have gm: "fst (get_model example_env unreachable_world) = Inr (Some ())"
    by (simp add: get_model_def unreachable_world_def)
  have rm: "run_model example_env () (py_strip example_text)
              (fst (length_config (py_lower ''Medium''))) (snd (length_config (py_lower ''Medium'')))
            = Inr (take 150 (py_strip example_text))"
    by (simp add: example_env_def)
  have "length (take 150 (py_strip example_text)) \<le> 150" by simp
  also have "(150::nat) < 2 ^ 63" by simp
  finally have l: "length (take 150 (py_strip example_text)) < 2 ^ 63" .
  have ne: "[(''text'', JStr example_text), (''length'', JStr ''Medium'')] \<noteq> []" by simp
  from inst have a: "get_cached_summary example_env example_text ''medium'' unreachable_world = None"
    by (rule conjunct1)
  from inst have b: "cache_summary example_env example_text ''medium'' JNull unreachable_world = unreachable_world"
    by (rule conjunct2 [THEN conjunct1])
  have c: "\<exists>result. fst (api_summarize example_env (example_request example_text ''Medium'') unreachable_world)
                    = \<lparr>body = JDict [(''success'', JBool True), (''data'', JDict result)], status = 200\<rparr>
                \<and> map_of result ''summary'' = Some (JStr (take 150 (py_strip example_text)))
                \<and> map_of result ''cached'' = Some (JBool False)"
    by (rule inst [THEN conjunct2, THEN conjunct2, rule_format]) (intro conjI r ne d1 d2 v gm rm l)
  from f a b v c show ?thesis by (intro conjI)
qed

subsection \<open>The rate limiter\<close>

lemma str_of_int_10: "str_of_int 10 = ''10''"
  by code_simp

lemma str_of_int_60: "str_of_int 60 = ''60''"
  by code_simp

text \<open>
  C1: with the store available (\<open>REDIS_AVAILABLE\<close> on, commands served), a request whose
  client has no live counter, an empty one, or one that \<open>int\<close> reads as less than 10 is
  allowed: the view is called, after the INCR/EXPIRE pipeline. A request whose client's
  counter is present and reads as 10 or more is rejected with the 429 response, the view
  is not called and the state is unchanged. A counter that \<open>int\<close> refuses (\<open>ValueError\<close>)
  is an exception of the \<open>try\<close> block: the view is called on the unchanged state. With
  the store unavailable every request is allowed: the view is called on the unchanged
  state.
\<close>

theorem rate_limit_decision:
  "(REDIS_AVAILABLE w \<and> failure (redis w) = None
      \<and> key = ''rate_limit:'' @ (case remote_addr req of None \<Rightarrow> ''None'' | Some a \<Rightarrow> a)
      \<and> (redis_get (redis w) key = Inr None \<or> redis_get (redis w) key = Inr (Some [])
          \<or> redis_get (redis w) key = Inr (Some c) \<and> py_int c = Inr n \<and> n < 10)
    \<longrightarrow> rate_limit 10 60 f req w = f req (w\<lparr>redis := snd (pipeline_incr_expire (redis w) key 60)\<rparr>))
   \<and> (REDIS_AVAILABLE w \<and> failure (redis w) = None
      \<and> key = ''rate_limit:'' @ (case remote_addr req of None \<Rightarrow> ''None'' | Some a \<Rightarrow> a)
      \<and> redis_get (redis w) key = Inr (Some c) \<and> c \<noteq> [] \<and> py_int c = Inr n \<and> 10 \<le> n
    \<longrightarrow> rate_limit 10 60 f req w = (too_many_requests, w))
   \<and> (REDIS_AVAILABLE w \<and> failure (redis w) = None
      \<and> key = ''rate_limit:'' @ (case remote_addr req of None \<Rightarrow> ''None'' | Some a \<Rightarrow> a)
      \<and> redis_get (redis w) key = Inr (Some c) \<and> c \<noteq> [] \<and> py_int c = Inl e
    \<longrightarrow> rate_limit 10 60 f req w = f req w)
   \<and> (\<not> REDIS_AVAILABLE w \<or> failure (redis w) = Some err
    \<longrightarrow> rate_limit 10 60 f req w = f req w)"
proof (intro conjI impI)
  assume "REDIS_AVAILABLE w \<and> failure (redis w) = None
      \<and> key = ''rate_limit:'' @ (case remote_addr req of None \<Rightarrow> ''None'' | Some a \<Rightarrow> a)
      \<and> (redis_get (redis w) key = Inr None \<or> redis_get (redis w) key = Inr (Some [])
          \<or> redis_get (redis w) key = Inr (Some c) \<and> py_int c = Inr n \<and> n < 10)"
  then show "rate_limit 10 60 f req w = f req (w\<lparr>redis := snd (pipeline_incr_expire (redis w) key 60)\<rparr>)"
    by (auto simp: rate_limit_def Let_def split: prod.splits)
next
  assume "REDIS_AVAILABLE w \<and> failure (redis w) = None
      \<and> key = ''rate_limit:'' @ (case remote_addr req of None \<Rightarrow> ''None'' | Some a \<Rightarrow> a)
      \<and> redis_get (redis w) key = Inr (Some c) \<and> c \<noteq> [] \<and> py_int c = Inr n \<and> 10 \<le> n"
  then show "rate_limit 10 60 f req w = (too_many_requests, w)"
    by (auto simp: rate_limit_def Let_def too_many_requests_def str_of_int_10 str_of_int_60)
next
  assume "REDIS_AVAILABLE w \<and> failure (redis w) = None
      \<and> key = ''rate_limit:'' @ (case remote_addr req of None \<Rightarrow> ''None'' | Some a \<Rightarrow> a)
      \<and> redis_get (redis w) key = Inr (Some c) \<and> c \<noteq> [] \<and> py_int c = Inl e"
  then show "rate_limit 10 60 f req w = f req w"
    by (auto simp: rate_limit_def Let_def)
next
  assume "\<not> REDIS_AVAILABLE w \<or> failure (redis w) = Some err"
  then show "rate_limit 10 60 f req w = f req w"
    by (auto simp: rate_limit_def redis_get_def Let_def)
qed


theorem rate_limit_decision_witness:
  "redis_get (redis (counter_world ''9'' 1030)) ''rate_limit:10.0.0.7'' = Inr (Some ''9'')
   \<and> py_int ''9'' = Inr 9
   \<and> rate_limit 10 60 ok_view (example_request example_text ''medium'') (counter_world ''9'' 1030)
       = ok_view (example_request example_text ''medium'')
           ((counter_world ''9'' 1030)
              \<lparr>redis := snd (pipeline_incr_expire (redis (counter_world ''9'' 1030)) ''rate_limit:10.0.0.7'' 60)\<rparr>)
   \<and> keyspace (snd (pipeline_incr_expire (redis (counter_world ''9'' 1030)) ''rate_limit:10.0.0.7'' 60))
        ''rate_limit:10.0.0.7'' = Some (''10'', Some 1060)
   \<and> redis_get (redis (counter_world ''10'' 1030)) ''rate_limit:10.0.0.7'' = Inr (Some ''10'')
   \<and> py_int ''10'' = Inr 10
   \<and> rate_limit 10 60 ok_view (example_request example_text ''medium'') (counter_world ''10'' 1030)
       = (too_many_requests, counter_world ''10'' 1030)
   \<and> redis_get (redis (counter_world (CHR 0x1C # ''10'') 1030)) ''rate_limit:10.0.0.7''
       = Inr (Some (CHR 0x1C # ''10''))
   \<and> py_int (CHR 0x1C # ''10'')
       = Inl (Exc ''ValueError'' (''invalid literal for int() with base 10: '' @ CHR 0x1C # ''10''))
   \<and> rate_limit 10 60 ok_view (example_request example_text ''medium'') (counter_world (CHR 0x1C # ''10'') 1030)
       = ok_view (example_request example_text ''medium'') (counter_world (CHR 0x1C # ''10'') 1030)
   \<and> rate_limit 10 60 ok_view (example_request example_text ''medium'') unreachable_world
       = ok_view (example_request example_text ''medium'') unreachable_world"
proof -
  let ?req = "example_request example_text ''medium''"
  let ?key = "''rate_limit:10.0.0.7''"
  have k: "?key = ''rate_limit:'' @ (case remote_addr ?req of None \<Rightarrow> ''None'' | Some a \<Rightarrow> a)"
    by (simp add: example_request_def)
  have av: "\<And>v t. REDIS_AVAILABLE (counter_world v t)" "\<And>v t. failure (redis (counter_world v t)) = None"
    by (simp_all add: counter_world_def example_world_def)
  have g: "\<And>v. redis_get (redis (counter_world v 1030)) ?key = Inr (Some v)"
    by (simp add: counter_world_def example_world_def redis_get_def redis_entry_def)
  have p9: "py_int ''9'' = Inr 9" by code_simp
  have p10: "py_int ''10'' = Inr 10" by code_simp
  have a: "rate_limit 10 60 ok_view ?req (counter_world ''9'' 1030)
       = ok_view ?req ((counter_world ''9'' 1030)
              \<lparr>redis := snd (pipeline_incr_expire (redis (counter_world ''9'' 1030)) ?key 60)\<rparr>)"
    by (rule rate_limit_decision [where c = "''9''" and n = 9, THEN conjunct1, rule_format])
       (intro conjI av k disjI2 g p9, simp)
  have s9: "string2ll ''9'' = Some 9" by code_simp
  have s10: "str_of_int (9 + 1) = ''10''" by code_simp
  have e: "redis_entry (redis (counter_world ''9'' 1030)) ?key = Some (''9'', Some 1030)"
    by (simp add: counter_world_def example_world_def redis_entry_def)
  have ks: "keyspace (snd (pipeline_incr_expire (redis (counter_world ''9'' 1030)) ?key 60)) ?key
              = Some (''10'', Some 1060)"
    by code_simp
  have b: "rate_limit 10 60 ok_view ?req (counter_world ''10'' 1030) = (too_many_requests, counter_world ''10'' 1030)"
    by (rule rate_limit_decision [where c = "''10''" and n = 10 and key = ?key,
                                  THEN conjunct2, THEN conjunct1, rule_format])
       (intro conjI av k g p10, simp_all)
  have pe: "py_int (CHR 0x1C # ''10'')
       = Inl (Exc ''ValueError'' (''invalid literal for int() with base 10: '' @ CHR 0x1C # ''10''))"
    by code_simp
  have d: "rate_limit 10 60 ok_view ?req (counter_world (CHR 0x1C # ''10'') 1030)
             = ok_view ?req (counter_world (CHR 0x1C # ''10'') 1030)"
    by (rule rate_limit_decision
              [where c = "CHR 0x1C # ''10''" and key = ?key
                 and e = "Exc ''ValueError'' (''invalid literal for int() with base 10: '' @ CHR 0x1C # ''10'')",
               THEN conjunct2, THEN conjunct2, THEN conjunct1, rule_format])
       (intro conjI av k g pe, simp_all)
  have c: "rate_limit 10 60 ok_view ?req unreachable_world = ok_view ?req unreachable_world"
    by (rule rate_limit_decision [where err = "Exc ''ConnectionError'' ''Error 111 connecting to localhost:6379. Connection refused.''",
                                  THEN conjunct2, THEN conjunct2, THEN conjunct2, rule_format])
       (simp add: unreachable_world_def)
  from g [of "''9''"] p9 a ks g [of "''10''"] p10 b g [of "CHR 0x1C # ''10''"] pe d c show ?thesis
    by (intro conjI)
qed

subsection \<open>The rate counter\<close>

text \<open>
  A value the server reads as an integer (what INCR itself writes) is read by \<open>int\<close> as
  the same integer.
\<close>

lemma is_digit_not_int_space: "is_digit c \<Longrightarrow> \<not> int_isspace c"
  by (auto simp: is_digit_def int_isspace_def Let_def)

lemma is_digit_not_sign: "is_digit c \<Longrightarrow> c \<noteq> CHR ''-'' \<and> c \<noteq> CHR ''+''"
  by (auto simp: is_digit_def Let_def)

lemma minus_not_int_space: "\<not> int_isspace CHR ''-''"
  by (simp add: int_isspace_def)

lemma int_strip_id:
  assumes "s \<noteq> []" "\<not> int_isspace (hd s)" "\<not> int_isspace (last s)"
  shows "rev (dropWhile int_isspace (rev (dropWhile int_isspace s))) = s"
proof -
  have a: "dropWhile int_isspace s = s"
    using assms(1,2) by (cases s) simp_all
  obtain ys y where s: "s = ys @ [y]"
    using assms(1) by (cases s rule: rev_cases) auto
  with assms(3) have "\<not> int_isspace y" by simp
  then have "dropWhile int_isspace (rev s) = rev s" by (simp add: s)
  with a show ?thesis by simp
qed

lemma int_body_ok_digits: "list_all is_digit ds \<Longrightarrow> int_body_ok b ds = (b \<or> ds \<noteq> [])"
  by (induction ds arbitrary: b) auto

lemma filter_digits: "list_all is_digit ds \<Longrightarrow> filter is_digit ds = ds"
  by (induction ds) auto

lemma py_int_zero: "py_int ''0'' = Inr 0"
  by code_simp

lemma string2ll_py_int:
  assumes "string2ll s = Some n"
  shows "py_int s = Inr n"
proof (cases "s = ''0''")
  case True
  with assms show ?thesis by (simp add: string2ll_def py_int_zero)
next
  case False
  define neg where "neg = (hd s = CHR ''-'')"
  define ds where "ds = (if neg then tl s else s)"
  from assms False have s: "s \<noteq> []" "length s < 21"
    by (auto simp: string2ll_def split: if_splits)
  from assms False s have d: "ds \<noteq> []" "list_all is_digit ds"
    by (auto simp: string2ll_def Let_def neg_def ds_def split: if_splits)
  from assms False s d have n: "n = (if neg then - int (digits_val ds) else int (digits_val ds))"
    by (auto simp: string2ll_def Let_def neg_def ds_def split: if_splits)
  have hd_s: "\<not> int_isspace (hd s)"
  proof (cases neg)
    case True then show ?thesis by (simp add: neg_def minus_not_int_space)
  next
    case False
    then have "ds = s" by (simp add: ds_def)
    with d have "is_digit (hd s)" by (cases s) simp_all
    then show ?thesis by (rule is_digit_not_int_space)
  qed
  have "last s = last ds"
    using d(1) by (cases s) (auto simp: ds_def)
  moreover have "is_digit (last ds)"
    using d by (simp add: list_all_iff)
  ultimately have last_s: "\<not> int_isspace (last s)"
    by (simp add: is_digit_not_int_space)
  have st: "rev (dropWhile int_isspace (rev (dropWhile int_isspace s))) = s"
    by (rule int_strip_id [OF s(1) hd_s last_s])
  have body: "(if s \<noteq> [] \<and> (hd s = CHR ''-'' \<or> hd s = CHR ''+'') then tl s else s) = ds"
  proof (cases neg)
    case True then show ?thesis using s(1) by (simp add: ds_def neg_def)
  next
    case False
    then have e: "ds = s" by (simp add: ds_def)
    with d have "is_digit (hd s)" by (cases s) simp_all
    from is_digit_not_sign [OF this] show ?thesis using e by simp
  qed
  have len: "length ds \<le> 4300"
    using s(2) by (auto simp: ds_def)
  have ng: "(s \<noteq> [] \<and> hd s = CHR ''-'') = neg" using s(1) by (simp add: neg_def)
  show ?thesis
    unfolding py_int_def st Let_def body ng
    using d len by (simp add: int_body_ok_digits filter_digits n)
qed

lemma str_of_int_1: "str_of_int 1 = ''1''"
  by code_simp

lemma advance_keyspace: "keyspace (redis (advance dt w)) = keyspace (redis w)"
  by (simp add: advance_def)

lemma get_model_keyspace:
  "get_model env w = (res, w1) \<Longrightarrow> keyspace (redis w1) = keyspace (redis w)"
  by (auto simp: get_model_def advance_def Let_def split: option.splits sum.splits)

lemma cache_summary_keyspace:
  "k \<noteq> get_cache_key (md5_hexdigest env) text len \<Longrightarrow>
   keyspace (redis (cache_summary env text len d w)) k = keyspace (redis w) k"
  by (auto simp: cache_summary_def redis_setex_def Let_def split: option.splits)

lemma rate_key_not_cache_key: "''rate_limit:'' @ ip \<noteq> get_cache_key md5hex text len"
  by (simp add: get_cache_key_def)

lemma generate_summary_keyspace:
  assumes "\<And>text len. k \<noteq> get_cache_key (md5_hexdigest env) text len"
  shows "keyspace (redis (snd (generate_summary env text len w))) k = keyspace (redis w) k"
proof (cases "(case get_cached_summary env text len w of
                 None \<Rightarrow> None
               | Some c \<Rightarrow> if truthy c then Some c else None)")
  case (Some cached)
  then show ?thesis by (simp add: generate_summary_def)
next
  case None
  obtain res w1 where g: "get_model env w = (res, w1)" by (cases "get_model env w")
  note k1 = get_model_keyspace [OF g]
  show ?thesis
    unfolding generate_summary_def None
    by (auto simp: g k1 Let_def case_prod_beta advance_keyspace cache_summary_keyspace [OF assms]
             split: sum.splits option.splits)
qed

lemma summarize_keyspace:
  assumes "\<And>text len. k \<noteq> get_cache_key (md5_hexdigest env) text len"
  shows "keyspace (redis (snd (summarize env req w))) k = keyspace (redis w) k"
  unfolding summarize_def
  by (auto simp: Let_def case_prod_beta generate_summary_keyspace [OF assms]
           split: sum.splits json.splits)

lemma pipeline_counter:
  assumes "failure r = None"
    and "redis_entry r k = None \<and> n = 0
         \<or> (\<exists>c t. redis_entry r k = Some (c, t) \<and> string2ll c = Some n \<and> n < 10)"
  shows "keyspace (snd (pipeline_incr_expire r k 60)) k = Some (str_of_int (n + 1), Some (now r + 60))"
  using assms(2)
proof (elim disjE conjE exE)
  assume "redis_entry r k = None" "n = 0"
  then show ?thesis
    using assms(1)
    by (simp add: pipeline_incr_expire_def server_incr_def server_expire_def redis_entry_def
                  str_of_int_1)
next
  fix c t
  assume e: "redis_entry r k = Some (c, t)" and c: "string2ll c = Some n" and n: "n < 10"
  have alive: "\<And>v. redis_entry (r\<lparr>keyspace := (keyspace r)(k \<mapsto> (v, t))\<rparr>) k = Some (v, t)"
    using e by (auto simp: redis_entry_def split: option.splits if_splits)
  show ?thesis
    using assms(1) e c n
    by (simp add: pipeline_incr_expire_def server_incr_def server_expire_def alive)
qed

lemma rate_limit_allowed:
  assumes "REDIS_AVAILABLE w" "failure (redis w) = None"
    and "key = ''rate_limit:'' @ (case remote_addr req of None \<Rightarrow> ''None'' | Some a \<Rightarrow> a)"
    and "redis_entry (redis w) key = None
         \<or> (\<exists>c t. redis_entry (redis w) key = Some (c, t) \<and> c \<noteq> [] \<and> py_int c = Inr n \<and> n < mx)"
  shows "rate_limit mx win f req w = f req (w\<lparr>redis := snd (pipeline_incr_expire (redis w) key win)\<rparr>)"
  using assms by (auto simp: rate_limit_def redis_get_def Let_def split: prod.splits)

lemma allowed_request_counter:
  assumes "REDIS_AVAILABLE w" "failure (redis w) = None"
    and "key = ''rate_limit:'' @ (case remote_addr req of None \<Rightarrow> ''None'' | Some a \<Rightarrow> a)"
    and "redis_entry (redis w) key = None \<and> n = 0
         \<or> (\<exists>c t. redis_entry (redis w) key = Some (c, t) \<and> string2ll c = Some n \<and> n < 10)"
  shows "keyspace (redis (snd (api_summarize env req w))) key
           = Some (str_of_int (n + 1), Some (now (redis w) + 60))"
proof -
  have nk: "\<And>text len. key \<noteq> get_cache_key (md5_hexdigest env) text len"
    unfolding assms(3) by (rule rate_key_not_cache_key)
  have "redis_entry (redis w) key = None
        \<or> (\<exists>c t. redis_entry (redis w) key = Some (c, t) \<and> c \<noteq> [] \<and> py_int c = Inr n \<and> n < 10)"
    using assms(4)
  proof (elim disjE conjE exE)
    assume "redis_entry (redis w) key = None"
    then show ?thesis by simp
  next
    fix c t
    assume e: "redis_entry (redis w) key = Some (c, t)" and c: "string2ll c = Some n" and n: "n < 10"
    from c have "c \<noteq> []" by (auto simp: string2ll_def)
    with string2ll_py_int [OF c] e n show ?thesis by simp
  qed
  from rate_limit_allowed [OF assms(1,2,3) this]
  have "api_summarize env req w
          = summarize env req (w\<lparr>redis := snd (pipeline_incr_expire (redis w) key 60)\<rparr>)"
    by (simp add: api_summarize_def)
  then have "keyspace (redis (snd (api_summarize env req w))) key
          = keyspace (snd (pipeline_incr_expire (redis w) key 60)) key"
    by (simp add: summarize_keyspace [OF nk])
  also have "\<dots> = Some (str_of_int (n + 1), Some (now (redis w) + 60))"
    by (rule pipeline_counter [OF assms(2,4)])
  finally show ?thesis .
qed

lemma py_int_nonempty: "py_int c = Inr n \<Longrightarrow> c \<noteq> []"
  by (auto simp: py_int_def)

lemma str_of_int_2: "str_of_int 2 = ''2''"
  by code_simp

lemma rate_limit_rejected:
  assumes "REDIS_AVAILABLE w" "failure (redis w) = None"
    and "key = ''rate_limit:'' @ (case remote_addr req of None \<Rightarrow> ''None'' | Some a \<Rightarrow> a)"
    and "redis_entry (redis w) key = Some (c, t)" "py_int c = Inr n" "10 \<le> n"
  shows "api_summarize env req w = (too_many_requests, w)"
  using assms py_int_nonempty [OF assms(5)]
  by (auto simp: api_summarize_def rate_limit_def redis_get_def Let_def too_many_requests_def
                 str_of_int_10 str_of_int_60)

text \<open>
  C4, as stated, fails: an attempt that the limiter rejects returns before the INCR. With
  the counter at 10, the request is answered 429 and the stored counter is still 10.
\<close>

theorem rejected_attempt_not_counted:
  "keyspace (redis (counter_world ''10'' 1030)) ''rate_limit:10.0.0.7'' = Some (''10'', Some 1030)
   \<and> api_summarize example_env (example_request example_text ''medium'') (counter_world ''10'' 1030)
       = (too_many_requests, counter_world ''10'' 1030)
   \<and> keyspace (redis (snd (api_summarize example_env (example_request example_text ''medium'')
                               (counter_world ''10'' 1030))))
        ''rate_limit:10.0.0.7'' = Some (''10'', Some 1030)"
proof -
  let ?w = "counter_world ''10'' 1030"
  let ?req = "example_request example_text ''medium''"
  have k: "keyspace (redis ?w) ''rate_limit:10.0.0.7'' = Some (''10'', Some 1030)"
    by (simp add: counter_world_def example_world_def)
  have e: "redis_entry (redis ?w) ''rate_limit:10.0.0.7'' = Some (''10'', Some 1030)"
    by (simp add: counter_world_def example_world_def redis_entry_def)
  have p: "py_int ''10'' = Inr 10" by code_simp
  have r: "api_summarize example_env ?req ?w = (too_many_requests, ?w)"
    by (rule rate_limit_rejected [OF _ _ _ e p])
       (simp_all add: counter_world_def example_world_def example_request_def)
  from k r show ?thesis by simp
qed

text \<open>
  C4, amended: with the store available, every attempt that the limiter lets through
  increments the client's counter before the view runs, whatever the view then answers
  (a summary, a validation error or an internal error): an absent counter becomes 1, a
  counter the server reads as \<open>n < 10\<close> becomes \<open>n + 1\<close>. An attempt rejected with 429
  (counter read as 10 or more) leaves the whole state, and so the counter, unchanged.
\<close>

theorem counter_incremented_on_allowed_attempts:
  assumes "REDIS_AVAILABLE w" "failure (redis w) = None"
    and "key = ''rate_limit:'' @ (case remote_addr req of None \<Rightarrow> ''None'' | Some a \<Rightarrow> a)"
  shows "(redis_entry (redis w) key = None
            \<longrightarrow> map_option fst (keyspace (redis (snd (api_summarize env req w))) key) = Some ''1'')
       \<and> (redis_entry (redis w) key = Some (c, t) \<and> string2ll c = Some n \<and> n < 10
            \<longrightarrow> map_option fst (keyspace (redis (snd (api_summarize env req w))) key)
                  = Some (str_of_int (n + 1)))
       \<and> (redis_entry (redis w) key = Some (c, t) \<and> py_int c = Inr n \<and> 10 \<le> n
            \<longrightarrow> api_summarize env req w = (too_many_requests, w))"
proof (intro conjI impI)
  assume "redis_entry (redis w) key = None"
  then have "redis_entry (redis w) key = None \<and> (0::int) = 0
         \<or> (\<exists>c t. redis_entry (redis w) key = Some (c, t) \<and> string2ll c = Some 0 \<and> (0::int) < 10)"
    by simp
  from allowed_request_counter [OF assms this, of env]
  show "map_option fst (keyspace (redis (snd (api_summarize env req w))) key) = Some ''1''"
    by (simp add: str_of_int_1)
next
  assume "redis_entry (redis w) key = Some (c, t) \<and> string2ll c = Some n \<and> n < 10"
  then have "redis_entry (redis w) key = None \<and> n = 0
         \<or> (\<exists>c t. redis_entry (redis w) key = Some (c, t) \<and> string2ll c = Some n \<and> n < 10)"
    by blast
  from allowed_request_counter [OF assms this, of env]
  show "map_option fst (keyspace (redis (snd (api_summarize env req w))) key) = Some (str_of_int (n + 1))"
    by simp
next
  assume "redis_entry (redis w) key = Some (c, t) \<and> py_int c = Inr n \<and> 10 \<le> n"
  then show "api_summarize env req w = (too_many_requests, w)"
    using rate_limit_rejected [OF assms] by blast
qed

theorem counter_incremented_on_allowed_attempts_witness:
  "redis_entry (redis (counter_world ''9'' 1030)) ''rate_limit:10.0.0.7'' = Some (''9'', Some 1030)
   \<and> string2ll ''9'' = Some 9
   \<and> status (fst (api_summarize failing_env (example_request example_text ''medium'')
                     (counter_world ''9'' 1030))) = 500
   \<and> map_option fst (keyspace (redis (snd (api_summarize failing_env (example_request example_text ''medium'')
                                              (counter_world ''9'' 1030))))
                       ''rate_limit:10.0.0.7'') = Some ''10''
   \<and> status (fst (api_summarize example_env (example_request ''too short'' ''medium'')
                     (counter_world ''9'' 1030))) = 400
   \<and> map_option fst (keyspace (redis (snd (api_summarize example_env (example_request ''too short'' ''medium'')
                                              (counter_world ''9'' 1030))))
                       ''rate_limit:10.0.0.7'') = Some ''10''
   \<and> redis_entry (redis example_world) ''rate_limit:10.0.0.7'' = None
   \<and> map_option fst (keyspace (redis (snd (api_summarize example_env (example_request example_text ''medium'')
                                              example_world)))
                       ''rate_limit:10.0.0.7'') = Some ''1''
   \<and> redis_entry (redis (counter_world ''12'' 1030)) ''rate_limit:10.0.0.7'' = Some (''12'', Some 1030)
   \<and> py_int ''12'' = Inr 12
   \<and> api_summarize example_env (example_request example_text ''medium'') (counter_world ''12'' 1030)
       = (too_many_requests, counter_world ''12'' 1030)"
proof -
  let ?key = "''rate_limit:10.0.0.7''"
  have av: "\<And>v t. REDIS_AVAILABLE (counter_world v t)" "\<And>v t. failure (redis (counter_world v t)) = None"
    by (simp_all add: counter_world_def example_world_def)
  have k: "\<And>txt len. ?key = ''rate_limit:'' @ (case remote_addr (example_request txt len) of
                                                   None \<Rightarrow> ''None'' | Some a \<Rightarrow> a)"
    by (simp add: example_request_def)
  have e: "\<And>v. redis_entry (redis (counter_world v 1030)) ?key = Some (v, Some 1030)"
    by (simp add: counter_world_def example_world_def redis_entry_def)
  have s9: "string2ll ''9'' = Some 9" by code_simp
  have p12: "py_int ''12'' = Inr 12" by code_simp
  have st5: "status (fst (api_summarize failing_env (example_request example_text ''medium'')
                     (counter_world ''9'' 1030))) = 500"
    by code_simp
  have st4: "status (fst (api_summarize example_env (example_request ''too short'' ''medium'')
                     (counter_world ''9'' 1030))) = 400"
    by code_simp
  have a: "map_option fst (keyspace (redis (snd (api_summarize failing_env (example_request example_text ''medium'')
                                              (counter_world ''9'' 1030)))) ?key) = Some ''10''"
    using counter_incremented_on_allowed_attempts
            [where w = "counter_world ''9'' 1030" and req = "example_request example_text ''medium''"
               and key = ?key and env = failing_env and c = "''9''" and t = "Some 1030" and n = 9,
             OF av k]
          e [of "''9''"] s9
    by (simp add: str_of_int_10)
  have b: "map_option fst (keyspace (redis (snd (api_summarize example_env (example_request ''too short'' ''medium'')
                                              (counter_world ''9'' 1030)))) ?key) = Some ''10''"
    using counter_incremented_on_allowed_attempts
            [where w = "counter_world ''9'' 1030" and req = "example_request ''too short'' ''medium''"
               and key = ?key and env = example_env and c = "''9''" and t = "Some 1030" and n = 9,
             OF av k]
          e [of "''9''"] s9
    by (simp add: str_of_int_10)
  have en: "redis_entry (redis example_world) ?key = None"
    by (simp add: example_world_def redis_entry_def)
  have avw: "REDIS_AVAILABLE example_world" "failure (redis example_world) = None"
    by (simp_all add: example_world_def)
  have c: "map_option fst (keyspace (redis (snd (api_summarize example_env (example_request example_text ''medium'')
                                              example_world))) ?key) = Some ''1''"
    using counter_incremented_on_allowed_attempts
            [where w = example_world and req = "example_request example_text ''medium''"
               and key = ?key and env = example_env, OF avw k]
          en
    by simp
  have d: "api_summarize example_env (example_request example_text ''medium'') (counter_world ''12'' 1030)
       = (too_many_requests, counter_world ''12'' 1030)"
    using counter_incremented_on_allowed_attempts
            [where w = "counter_world ''12'' 1030" and req = "example_request example_text ''medium''"
               and key = ?key and env = example_env and c = "''12''" and t = "Some 1030" and n = 12,
             OF av k]
          e [of "''12''"] p12
    by simp
  from e [of "''9''"] s9 st5 a st4 b en c e [of "''12''"] p12 d show ?thesis
    by (intro conjI)
qed

subsection \<open>The rate window\<close>

text \<open>
  C8, as stated, fails: the pipeline sends EXPIRE with every INCR. A counter created at
  time 1000 expires at 1060; an allowed request at time 1030 moves its expiry to 1090.
\<close>

theorem expiry_extended_by_allowed_request:
  "keyspace (redis (snd (api_summarize example_env (example_request example_text ''medium'') example_world)))
      ''rate_limit:10.0.0.7'' = Some (''1'', Some 1060)
   \<and> now (redis (advance 30 (counter_world ''1'' 1060))) = 1030
   \<and> keyspace (redis (advance 30 (counter_world ''1'' 1060))) ''rate_limit:10.0.0.7'' = Some (''1'', Some 1060)
   \<and> keyspace (redis (snd (api_summarize example_env (example_request example_text ''medium'')
                               (advance 30 (counter_world ''1'' 1060)))))
        ''rate_limit:10.0.0.7'' = Some (''2'', Some 1090)"
proof -
  let ?key = "''rate_limit:10.0.0.7''"
  let ?req = "example_request example_text ''medium''"
  let ?w = "advance 30 (counter_world ''1'' 1060)"
  have k: "?key = ''rate_limit:'' @ (case remote_addr ?req of None \<Rightarrow> ''None'' | Some a \<Rightarrow> a)"
    by (simp add: example_request_def)
  have en: "redis_entry (redis example_world) ?key = None \<and> (0::int) = 0
            \<or> (\<exists>c t. redis_entry (redis example_world) ?key = Some (c, t) \<and> string2ll c = Some 0 \<and> (0::int) < 10)"
    by (simp add: example_world_def redis_entry_def)
  have "keyspace (redis (snd (api_summarize example_env ?req example_world))) ?key
          = Some (str_of_int (0 + 1), Some (now (redis example_world) + 60))"
    by (rule allowed_request_counter [OF _ _ k en]) (simp_all add: example_world_def)
  then have a: "keyspace (redis (snd (api_summarize example_env ?req example_world))) ?key
                  = Some (''1'', Some 1060)"
    by (simp add: str_of_int_1 example_world_def)
  have n: "now (redis ?w) = 1030"
    by (simp add: advance_def counter_world_def example_world_def)
  have ks: "keyspace (redis ?w) ?key = Some (''1'', Some 1060)"
    by (simp add: advance_def counter_world_def example_world_def)
  have s1: "string2ll ''1'' = Some 1" by code_simp
  have e1: "redis_entry (redis ?w) ?key = None \<and> (1::int) = 0
            \<or> (\<exists>c t. redis_entry (redis ?w) ?key = Some (c, t) \<and> string2ll c = Some 1 \<and> (1::int) < 10)"
    by (simp add: advance_def counter_world_def example_world_def redis_entry_def s1)
  have "keyspace (redis (snd (api_summarize example_env ?req ?w))) ?key
          = Some (str_of_int (1 + 1), Some (now (redis ?w) + 60))"
    by (rule allowed_request_counter [OF _ _ k e1])
       (simp_all add: advance_def counter_world_def example_world_def)
  then have b: "keyspace (redis (snd (api_summarize example_env ?req ?w))) ?key = Some (''2'', Some 1090)"
    by (simp add: str_of_int_2 n)
  from a n ks b show ?thesis by (intro conjI)
qed

text \<open>
  C8, amended: with the store available, every request that the limiter lets through
  sets the expiry of the client's counter to 60 seconds after that request, whether the
  counter was absent or present (read by the server as less than 10); so a counter
  expires 60 seconds after the latest allowed request. A request rejected with 429 leaves
  the counter and its expiry as they are.
\<close>

theorem expiry_reset_by_every_allowed_request:
  assumes "REDIS_AVAILABLE w" "failure (redis w) = None"
    and "key = ''rate_limit:'' @ (case remote_addr req of None \<Rightarrow> ''None'' | Some a \<Rightarrow> a)"
  shows "(redis_entry (redis w) key = None
            \<or> redis_entry (redis w) key = Some (c, t) \<and> string2ll c = Some n \<and> n < 10
          \<longrightarrow> map_option snd (keyspace (redis (snd (api_summarize env req w))) key)
                = Some (Some (now (redis w) + 60)))
       \<and> (redis_entry (redis w) key = Some (c, t) \<and> py_int c = Inr n \<and> 10 \<le> n
          \<longrightarrow> keyspace (redis (snd (api_summarize env req w))) key = keyspace (redis w) key)"
proof (intro conjI impI)
  assume "redis_entry (redis w) key = None
            \<or> redis_entry (redis w) key = Some (c, t) \<and> string2ll c = Some n \<and> n < 10"
  then consider "redis_entry (redis w) key = None"
    | "redis_entry (redis w) key = Some (c, t)" "string2ll c = Some n" "n < 10"
    by auto
  then show "map_option snd (keyspace (redis (snd (api_summarize env req w))) key)
                = Some (Some (now (redis w) + 60))"
  proof cases
    case 1
    then have "redis_entry (redis w) key = None \<and> (0::int) = 0
         \<or> (\<exists>c t. redis_entry (redis w) key = Some (c, t) \<and> string2ll c = Some 0 \<and> (0::int) < 10)"
      by simp
    from allowed_request_counter [OF assms this, of env] show ?thesis by simp
  next
    case 2
    then have "redis_entry (redis w) key = None \<and> n = 0
         \<or> (\<exists>c t. redis_entry (redis w) key = Some (c, t) \<and> string2ll c = Some n \<and> n < 10)"
      by blast
    from allowed_request_counter [OF assms this, of env] show ?thesis by simp
  qed
next
  assume "redis_entry (redis w) key = Some (c, t) \<and> py_int c = Inr n \<and> 10 \<le> n"
  then have "api_summarize env req w = (too_many_requests, w)"
    using rate_limit_rejected [OF assms] by blast
  then show "keyspace (redis (snd (api_summarize env req w))) key = keyspace (redis w) key"
    by simp
qed

theorem expiry_reset_by_every_allowed_request_witness:
  "now (redis (advance 30 (counter_world ''1'' 1060))) = 1030
   \<and> redis_entry (redis (advance 30 (counter_world ''1'' 1060))) ''rate_limit:10.0.0.7''
       = Some (''1'', Some 1060)
   \<and> string2ll ''1'' = Some 1
   \<and> map_option snd (keyspace (redis (snd (api_summarize example_env (example_request example_text ''medium'')
                                              (advance 30 (counter_world ''1'' 1060)))))
                       ''rate_limit:10.0.0.7'') = Some (Some 1090)
   \<and> redis_entry (redis (advance 30 (counter_world ''10'' 1060))) ''rate_limit:10.0.0.7''
       = Some (''10'', Some 1060)
   \<and> py_int ''10'' = Inr 10
   \<and> keyspace (redis (snd (api_summarize example_env (example_request example_text ''medium'')
                               (advance 30 (counter_world ''10'' 1060)))))
        ''rate_limit:10.0.0.7'' = Some (''10'', Some 1060)"
proof -
  let ?key = "''rate_limit:10.0.0.7''"
  let ?req = "example_request example_text ''medium''"
  have av: "\<And>v. REDIS_AVAILABLE (advance 30 (counter_world v 1060))"
           "\<And>v. failure (redis (advance 30 (counter_world v 1060))) = None"
    by (simp_all add: advance_def counter_world_def example_world_def)
  have k: "?key = ''rate_limit:'' @ (case remote_addr ?req of None \<Rightarrow> ''None'' | Some a \<Rightarrow> a)"
    by (simp add: example_request_def)
  have n: "\<And>v. now (redis (advance 30 (counter_world v 1060))) = 1030"
    by (simp add: advance_def counter_world_def example_world_def)
  have e: "\<And>v. redis_entry (redis (advance 30 (counter_world v 1060))) ?key = Some (v, Some 1060)"
    by (simp add: advance_def counter_world_def example_world_def redis_entry_def)
  have ks: "\<And>v. keyspace (redis (advance 30 (counter_world v 1060))) ?key = Some (v, Some 1060)"
    by (simp add: advance_def counter_world_def example_world_def)
  have s1: "string2ll ''1'' = Some 1" by code_simp
  have p10: "py_int ''10'' = Inr 10" by code_simp
  have a: "map_option snd (keyspace (redis (snd (api_summarize example_env ?req
                                        (advance 30 (counter_world ''1'' 1060))))) ?key) = Some (Some 1090)"
    using expiry_reset_by_every_allowed_request
            [where w = "advance 30 (counter_world ''1'' 1060)" and req = ?req and key = ?key
               and c = "''1''" and t = "Some 1060" and n = 1 and env = example_env, OF av k]
          e [of "''1''"] s1 n [of "''1''"]
    by simp
  have b: "keyspace (redis (snd (api_summarize example_env ?req
                       (advance 30 (counter_world ''10'' 1060))))) ?key = Some (''10'', Some 1060)"
    using expiry_reset_by_every_allowed_request
            [where w = "advance 30 (counter_world ''10'' 1060)" and req = ?req and key = ?key
               and c = "''10''" and t = "Some 1060" and n = 10 and env = example_env, OF av k]
          e [of "''10''"] p10 ks [of "''10''"]
    by simp
  from n [of "''1''"] e [of "''1''"] s1 a e [of "''10''"] p10 b show ?thesis
    by (intro conjI)
qed

subsection \<open>The cache round trip\<close>

lemma map_of_dict_set: "map_of (dict_set d k v) k' = (if k' = k then Some v else map_of d k')"
  by (induction d) auto

lemma cached_entry_lookup:
  assumes "REDIS_AVAILABLE w" "failure (redis w) = None"
  shows "redis_get (redis (advance dt (cache_summary env text len v w)))
           (get_cache_key (md5_hexdigest env) text len)
         = Inr (if dt < 86400 then Some (json_dumps env v) else None)"
  using assms
  by (simp add: cache_summary_def redis_setex_def redis_get_def redis_entry_def advance_def Let_def)

lemma cached_entry_status:
  assumes "REDIS_AVAILABLE w" "failure (redis w) = None"
  shows "REDIS_AVAILABLE (advance dt (cache_summary env text len v w))"
  using assms
  by (simp add: cache_summary_def redis_setex_def advance_def Let_def)

lemma advance_advance: "advance b (advance a w) = advance (a + b) w"
  by (simp add: advance_def)

text \<open>
  C2: let a summary result \<open>d\<close> (a non-empty dict that \<open>json.loads\<close> reads back from what
  \<open>json.dumps\<close> writes, a non-empty string) be stored by \<open>cache_summary\<close> while the store
  is available. Less than 86400 seconds later, \<open>generate_summary\<close> on the same text and
  length returns \<open>d\<close> with \<open>cached\<close> set to true and every other field as stored, and
  leaves the state as it is. From 86400 seconds after the write the lookup misses, also
  when the entry was read in between: a read does not renew the expiry.
\<close>

theorem cache_round_trip:
  assumes "REDIS_AVAILABLE w" "failure (redis w) = None"
    and "json_loads env (json_dumps env (JDict d)) = Inr (JDict d)"
    and "json_dumps env (JDict d) \<noteq> []" "d \<noteq> []"
  shows "(dt < 86400 \<longrightarrow>
            generate_summary env t len (advance dt (cache_summary env t len (JDict d) w))
              = (Inr (JDict (dict_set d ''cached'' (JBool True))),
                 advance dt (cache_summary env t len (JDict d) w))
          \<and> map_of (dict_set d ''cached'' (JBool True)) ''cached'' = Some (JBool True)
          \<and> (\<forall>k. k \<noteq> ''cached'' \<longrightarrow> map_of (dict_set d ''cached'' (JBool True)) k = map_of d k))
       \<and> (86400 \<le> dt \<longrightarrow>
            get_cached_summary env t len (advance dt (cache_summary env t len (JDict d) w)) = None)
       \<and> (dt < 86400 \<and> 86400 \<le> dt + dt' \<longrightarrow>
            get_cached_summary env t len
              (advance dt' (snd (generate_summary env t len
                                   (advance dt (cache_summary env t len (JDict d) w))))) = None)"
proof -
  let ?w1 = "cache_summary env t len (JDict d) w"
  have hit: "get_cached_summary env t len (advance x ?w1) = Some (JDict d)" if "x < 86400" for x
    using that assms(3,4)
    by (simp add: get_cached_summary_def Let_def
                  cached_entry_lookup [OF assms(1,2)] cached_entry_status [OF assms(1,2)])
  have miss: "get_cached_summary env t len (advance x ?w1) = None" if "86400 \<le> x" for x
    using that
    by (simp add: get_cached_summary_def Let_def
                  cached_entry_lookup [OF assms(1,2)] cached_entry_status [OF assms(1,2)])
  have gen: "generate_summary env t len (advance x ?w1)
               = (Inr (JDict (dict_set d ''cached'' (JBool True))), advance x ?w1)" if "x < 86400" for x
    using assms(5) by (simp add: generate_summary_def hit [OF that])
  have a: "dt < 86400 \<longrightarrow>
            generate_summary env t len (advance dt ?w1)
              = (Inr (JDict (dict_set d ''cached'' (JBool True))), advance dt ?w1)
          \<and> map_of (dict_set d ''cached'' (JBool True)) ''cached'' = Some (JBool True)
          \<and> (\<forall>k. k \<noteq> ''cached'' \<longrightarrow> map_of (dict_set d ''cached'' (JBool True)) k = map_of d k)"
    using gen by (simp add: map_of_dict_set)
  have b: "86400 \<le> dt \<longrightarrow> get_cached_summary env t len (advance dt ?w1) = None"
    using miss by simp
  have c: "dt < 86400 \<and> 86400 \<le> dt + dt' \<longrightarrow>
            get_cached_summary env t len
              (advance dt' (snd (generate_summary env t len (advance dt ?w1)))) = None"
    using gen [of dt] miss [of "dt + dt'"] by (simp add: advance_advance)
  from a b c show ?thesis by (intro conjI)
qed

theorem cache_round_trip_witness:
  "json_loads one_document_env (json_dumps one_document_env (JDict example_result)) = Inr (JDict example_result)
   \<and> generate_summary one_document_env example_text ''medium''
        (advance 3600 (cache_summary one_document_env example_text ''medium'' (JDict example_result) example_world))
       = (Inr (JDict (dict_set example_result ''cached'' (JBool True))),
          advance 3600 (cache_summary one_document_env example_text ''medium'' (JDict example_result) example_world))
   \<and> map_of (dict_set example_result ''cached'' (JBool True)) ''cached'' = Some (JBool True)
   \<and> map_of example_result ''cached'' = Some (JBool False)
   \<and> map_of (dict_set example_result ''cached'' (JBool True)) ''summary'' = Some (JStr ''word word'')
   \<and> get_cached_summary one_document_env example_text ''medium''
        (advance 86400 (cache_summary one_document_env example_text ''medium'' (JDict example_result) example_world))
       = None
   \<and> get_cached_summary one_document_env example_text ''medium''
        (advance 82800 (snd (generate_summary one_document_env example_text ''medium''
           (advance 3600 (cache_summary one_document_env example_text ''medium'' (JDict example_result) example_world)))))
       = None"
proof -
  have av: "REDIS_AVAILABLE example_world" "failure (redis example_world) = None"
    by (simp_all add: example_world_def)
  have rt: "json_loads one_document_env (json_dumps one_document_env (JDict example_result))
              = Inr (JDict example_result)"
    by (simp add: one_document_env_def)
  have ne: "json_dumps one_document_env (JDict example_result) \<noteq> []"
    by (simp add: one_document_env_def)
  have d: "example_result \<noteq> []"
    by (simp add: example_result_def)
  note inst = cache_round_trip [OF av rt ne d, where t = example_text and len = "''medium''"]
  have a: "generate_summary one_document_env example_text ''medium''
        (advance 3600 (cache_summary one_document_env example_text ''medium'' (JDict example_result) example_world))
       = (Inr (JDict (dict_set example_result ''cached'' (JBool True))),
          advance 3600 (cache_summary one_document_env example_text ''medium'' (JDict example_result) example_world))"
    using inst [where dt = 3600, THEN conjunct1] by simp
  have b: "map_of (dict_set example_result ''cached'' (JBool True)) ''cached'' = Some (JBool True)"
    using inst [where dt = 3600, THEN conjunct1] by simp
  have b0: "map_of example_result ''cached'' = Some (JBool False)"
    by (simp add: example_result_def)
  have "map_of (dict_set example_result ''cached'' (JBool True)) ''summary'' = map_of example_result ''summary''"
    using inst [where dt = 3600, THEN conjunct1] by simp
  then have c: "map_of (dict_set example_result ''cached'' (JBool True)) ''summary'' = Some (JStr ''word word'')"
    by (simp add: example_result_def)
  have e: "get_cached_summary one_document_env example_text ''medium''
        (advance 86400 (cache_summary one_document_env example_text ''medium'' (JDict example_result) example_world))
       = None"
    using inst [where dt = 86400, THEN conjunct2, THEN conjunct1] by simp
  have f: "get_cached_summary one_document_env example_text ''medium''
        (advance 82800 (snd (generate_summary one_document_env example_text ''medium''
           (advance 3600 (cache_summary one_document_env example_text ''medium'' (JDict example_result) example_world)))))
       = None"
    using inst [where dt = 3600 and dt' = 82800, THEN conjunct2, THEN conjunct2] by simp
  from rt a b b0 c e f show ?thesis by (intro conjI)
qed

end
